theory Spec2Isabelle
  imports Main "HOL-Library.Char_ord" "HOL-Library.List_Lexorder" "HOL-Library.Sublist"
begin

section \<open>The MMASH dataset loader (pyhealth/datasets/mmash.py)\<close>

text \<open>
  The loader validates the requested table names, makes sure the archive is unpacked
  under the storage root (downloading it when the marker directory is absent), and then
  builds one record per subject directory. The model below follows the source function by
  function. Everything the loader does to its surroundings is explicit: the file system
  is a value that is passed along, every file-system, network and progress-bar call is
  appended to a log, and every exception is the \<open>Inl\<close> branch of a result.
\<close>

subsection \<open>Module constants\<close>

definition MMASH_URL :: string where
  "MMASH_URL = ''https://physionet.org/files/mmash/1.0.0/MMASH.zip''"

definition MMASH_FOLDER :: string where
  "MMASH_FOLDER = ''MMASH''"

definition ALL_TABLES :: "string list" where
  "ALL_TABLES = [''sleep'', ''activity'', ''user_info'', ''questionnaire'', ''rr'']"

subsection \<open>Exceptions\<close>

text \<open>
  \<open>ValueError\<close> carries the message the loader formats. \<open>IntValueError\<close> is the
  \<open>ValueError\<close> that the builtin \<open>int\<close> raises, with the rejected text. The parser's
  own exceptions (pandas.errors) are kept apart from the operating system's, because
  only \<open>FileNotFoundError\<close> is caught by the loader.
\<close>

datatype csv_error = ParserError | EmptyDataError | UnicodeDecodeError

datatype error =
    ValueError string
  | IntValueError string
  | FileNotFoundError
  | IsADirectoryError
  | NotADirectoryError
  | FileExistsError
  | PermissionError
  | CsvError csv_error
  | ConnectionError
  | BadZipFile

subsection \<open>Tables and records\<close>

text \<open>
  A pandas DataFrame as far as the loader touches it: a number of rows and the columns in
  their order, each with its values. The numeric cell types of pandas are abstracted to
  integers; the loader never looks into a cell.
\<close>

datatype cell = CellStr string | CellInt int | CellNaN

record dataframe =
  n_rows :: nat
  columns :: "(string \<times> cell list) list"

text \<open>
  Python's \<open>d[k] = v\<close> on a dict, and pandas' column assignment, both keep insertion
  order: an existing key keeps its place and gets the new value, a new key goes last.
\<close>

fun setitem :: "(string \<times> 'v) list \<Rightarrow> string \<Rightarrow> 'v \<Rightarrow> (string \<times> 'v) list" where
  "setitem [] k v = [(k, v)]"
| "setitem ((k', v') # kvs) k v =
     (if k' = k then (k, v) # kvs else (k', v') # setitem kvs k v)"

text \<open>\<open>df[name] = scalar\<close>: the scalar is broadcast to every row.\<close>

definition set_scalar_column :: "dataframe \<Rightarrow> string \<Rightarrow> cell \<Rightarrow> dataframe" where
  "set_scalar_column df name v =
     df\<lparr>columns := setitem (columns df) name (replicate (n_rows df) v)\<rparr>"

definition column :: "dataframe \<Rightarrow> string \<Rightarrow> cell list option" where
  "column df name = map_of (columns df) name"

type_synonym table_record = "(string \<times> dataframe) list"

subsection \<open>Paths and the file system\<close>

type_synonym path = string
type_synonym bytes = string

text \<open>\<open>os.path.join\<close> with two arguments, as posixpath defines it.\<close>

definition os_path_join :: "path \<Rightarrow> string \<Rightarrow> path" where
  "os_path_join a b =
     (if b \<noteq> [] \<and> hd b = CHR ''/'' then b
      else if a = [] \<or> last a = CHR ''/'' then a @ b
      else a @ ''/'' @ b)"

text \<open>
  What lies at a path: a regular file (readable or not, with its bytes), a directory, or
  a symbolic link together with what it points to (\<open>BrokenLink\<close> when the target is
  missing). The file system is the finite list of the paths that exist.
\<close>

datatype node =
    RegularFile bool bytes
  | Directory
  | SymLink node
  | BrokenLink

type_synonym filesystem = "(path \<times> node) list"

text \<open>Following links to the end, as \<open>stat\<close> does.\<close>

fun resolve :: "node \<Rightarrow> node option" where
  "resolve (SymLink n) = resolve n"
| "resolve BrokenLink = None"
| "resolve n = Some n"

definition stat :: "filesystem \<Rightarrow> path \<Rightarrow> node option" where
  "stat fs p = (case map_of fs p of None \<Rightarrow> None | Some n \<Rightarrow> resolve n)"

text \<open>\<open>os.path.exists\<close> and \<open>os.path.isdir\<close> follow symbolic links; \<open>os.path.islink\<close>
  looks at the entry itself.\<close>

definition os_path_exists :: "filesystem \<Rightarrow> path \<Rightarrow> bool" where
  "os_path_exists fs p = (stat fs p \<noteq> None)"

definition os_path_isdir :: "filesystem \<Rightarrow> path \<Rightarrow> bool" where
  "os_path_isdir fs p = (stat fs p = Some Directory)"

definition os_path_islink :: "filesystem \<Rightarrow> path \<Rightarrow> bool" where
  "os_path_islink fs p =
     (case map_of fs p of Some (SymLink _) \<Rightarrow> True | Some BrokenLink \<Rightarrow> True | _ \<Rightarrow> False)"

text \<open>
  The names in a directory are the single path components \<open>c\<close> for which
  \<open>os.path.join dir c\<close> exists, in the order the file system holds them.
\<close>

definition child_name :: "path \<Rightarrow> path \<Rightarrow> string option" where
  "child_name dir p =
     (let pre = os_path_join dir ''''; c = drop (length pre) p
      in if take (length pre) p = pre \<and> c \<noteq> [] \<and> CHR ''/'' \<notin> set c then Some c else None)"

definition children :: "filesystem \<Rightarrow> path \<Rightarrow> string list" where
  "children fs dir = List.map_filter (\<lambda>(p, n). child_name dir p) fs"

definition os_listdir :: "filesystem \<Rightarrow> path \<Rightarrow> error + string list" where
  "os_listdir fs dir =
     (case stat fs dir of
        None \<Rightarrow> Inl FileNotFoundError
      | Some Directory \<Rightarrow> Inr (children fs dir)
      | Some _ \<Rightarrow> Inl NotADirectoryError)"

text \<open>
  \<open>pandas.read_csv\<close> on a path. The parser itself is outside the loader: the world
  supplies it as a function from a file's bytes to a table or a parser exception. A path
  that does not resolve to anything raises \<open>FileNotFoundError\<close>.
\<close>

definition read_csv_result ::
  "(bytes \<Rightarrow> csv_error + dataframe) \<Rightarrow> filesystem \<Rightarrow> path \<Rightarrow> error + dataframe" where
  "read_csv_result parse fs p =
     (case stat fs p of
        None \<Rightarrow> Inl FileNotFoundError
      | Some (RegularFile ok b) \<Rightarrow>
          (if \<not> ok then Inl PermissionError
           else case parse b of Inl e \<Rightarrow> Inl (CsvError e) | Inr df \<Rightarrow> Inr df)
      | Some _ \<Rightarrow> Inl IsADirectoryError)"

subsection \<open>The world outside and the state of a run\<close>

text \<open>
  An HTTP response as the loader uses it: the text of the content-length header if the
  server sent one, the chunks that \<open>iter_content\<close> yields, and the exception that ends
  the stream early, if any.
\<close>

record response =
  content_length :: "string option"
  chunks :: "bytes list"
  stream_error :: "error option"

text \<open>
  The collaborators that are not part of the loader: what \<open>requests.get\<close> on the archive
  URL gives, which members \<open>zipfile\<close> finds in an archive with given bytes, and the CSV
  parser. A member is its path relative to the archive root, without a trailing slash,
  and its bytes; a directory entry has no bytes.
\<close>

record world =
  remote :: "error + response"
  unzip :: "bytes \<Rightarrow> error + (path \<times> bytes option) list"
  parse_csv :: "bytes \<Rightarrow> csv_error + dataframe"

datatype io_event =
    PathExists path
  | MakeDirs path
  | HttpGet string
  | OpenWrite path
  | FileWrite path bytes
  | ProgressTotal int
  | ProgressUpdate nat
  | ExtractAll path path
  | Remove path
  | ListDir path
  | IsDir path
  | ReadCsv path

text \<open>
  The state of a run: the file system, the log of calls made so far, and the samples
  handed to \<open>add_sample\<close> (patient id, visit id, record), oldest first.
\<close>

record state =
  disk :: filesystem
  io :: "io_event list"
  samples :: "(string \<times> string \<times> table_record) list"

type_synonym 'a result = "(error + 'a) \<times> state"

definition log :: "io_event \<Rightarrow> state \<Rightarrow> state" where
  "log e s = s\<lparr>io := io s @ [e]\<rparr>"

text \<open>Sequencing: an exception ends the run with the state reached so far.\<close>

definition and_then :: "'a result \<Rightarrow> ('a \<Rightarrow> state \<Rightarrow> 'b result) \<Rightarrow> 'b result" where
  "and_then r f = (case r of (Inl e, s) \<Rightarrow> (Inl e, s) | (Inr a, s) \<Rightarrow> f a s)"

definition pd_read_csv :: "world \<Rightarrow> path \<Rightarrow> state \<Rightarrow> dataframe result" where
  "pd_read_csv w p s = (read_csv_result (parse_csv w) (disk s) p, log (ReadCsv p) s)"

text \<open>
  Modelled from the spec: \<open>BaseDataset.add_sample\<close> belongs to the base class, which is
  not in this module. The storage collaborator adds one record under a given patient id
  and visit id; here it appends to the samples of the state.
\<close>

definition add_sample :: "string \<Rightarrow> string \<Rightarrow> table_record \<Rightarrow> state \<Rightarrow> state" where
  "add_sample patient_id visit_id rec s = s\<lparr>samples := samples s @ [(patient_id, visit_id, rec)]\<rparr>"

subsection \<open>Configuration and validation\<close>

text \<open>
  \<open>repr\<close> of a list of strings, for strings that need no escaping (the five table names):
  each in single quotes, separated by a comma and a space, in brackets.
\<close>

definition py_repr_str :: "string \<Rightarrow> string" where
  "py_repr_str x = [CHR 0x27] @ x @ [CHR 0x27]"

fun comma_separated :: "string list \<Rightarrow> string" where
  "comma_separated [] = []"
| "comma_separated [x] = x"
| "comma_separated (x # y # ys) = x @ '', '' @ comma_separated (y # ys)"

definition py_repr_list :: "string list \<Rightarrow> string" where
  "py_repr_list xs = ''['' @ comma_separated (map py_repr_str xs) @ '']''"

definition missing_tables_message :: string where
  "missing_tables_message = ''`tables` must be specified from '' @ py_repr_list ALL_TABLES"

definition unsupported_table_message :: "string \<Rightarrow> string" where
  "unsupported_table_message t =
     ''Unsupported table: '' @ t @ ''. Must be one of '' @ py_repr_list ALL_TABLES"

text \<open>The loop over the requested names: the first name outside \<open>ALL_TABLES\<close> raises.\<close>

fun check_tables :: "string list \<Rightarrow> error + unit" where
  "check_tables [] = Inr ()"
| "check_tables (t # ts) =
     (if t \<notin> set ALL_TABLES then Inl (ValueError (unsupported_table_message t))
      else check_tables ts)"

definition validate_tables :: "string list option \<Rightarrow> error + string list" where
  "validate_tables tables_arg =
     (case tables_arg of
        None \<Rightarrow> Inl (ValueError missing_tables_message)
      | Some ts \<Rightarrow> (case check_tables ts of Inl e \<Rightarrow> Inl e | Inr _ \<Rightarrow> Inr ts))"

text \<open>
  Modelled from the spec: \<open>BaseDataset.__init__\<close> belongs to the base class, which is not
  in this module. The collaborator is constructed with the dataset name, the root, the
  tables and the dev flag; it is taken to store the root it is given, which the loader
  reads back as \<open>self.root\<close>, and to start without samples. The loader object holds
  these fields and the \<open>dataset_folder\<close> that the constructor sets.
\<close>

record dataset =
  root :: string
  tables :: "string list"
  dev :: bool
  dataset_folder :: path

subsection \<open>Acquisition\<close>

text \<open>
  The builtin \<open>int\<close> on a header text (characters are Latin-1 code points, as
  \<open>requests\<close> decodes headers): surrounding whitespace is dropped, one sign is allowed,
  then decimal digits with single underscores between digits. Anything else, and a
  literal of more than 4300 digits, raises \<open>ValueError\<close>. The whitespace that \<open>int\<close>
  drops is tab, line feed, vertical tab, form feed, carriage return, space, and the
  Latin-1 characters NEL (133) and no-break space (160); the separators 28 to 31 are not
  dropped.
\<close>

definition py_isspace :: "char \<Rightarrow> bool" where
  "py_isspace c = ((of_char c :: nat) \<in> set [9, 10, 11, 12, 13, 32, 133, 160])"

definition py_strip :: "string \<Rightarrow> string" where
  "py_strip x = rev (dropWhile py_isspace (rev (dropWhile py_isspace x)))"

definition is_digit :: "char \<Rightarrow> bool" where
  "is_digit c = (CHR ''0'' \<le> c \<and> c \<le> CHR ''9'')"

definition digit_value :: "char \<Rightarrow> nat" where
  "digit_value c = of_char c - 48"

fun more_digits :: "nat \<Rightarrow> string \<Rightarrow> nat option" where
  "more_digits acc [] = Some acc"
| "more_digits acc (c # cs) =
     (if is_digit c then more_digits (10 * acc + digit_value c) cs
      else if c = CHR ''_'' then
        (case cs of
           [] \<Rightarrow> None
         | d # ds \<Rightarrow> if is_digit d then more_digits (10 * acc + digit_value d) ds else None)
      else None)"

definition decimal :: "string \<Rightarrow> nat option" where
  "decimal x =
     (case x of
        [] \<Rightarrow> None
      | c # cs \<Rightarrow>
          if is_digit c \<and> length (filter is_digit x) \<le> 4300 then more_digits (digit_value c) cs
          else None)"

definition py_int :: "string \<Rightarrow> error + int" where
  "py_int x =
     (let t = py_strip x;
          signed = (case t of
                      [] \<Rightarrow> None
                    | c # cs \<Rightarrow>
                        if c = CHR ''-'' then map_option (\<lambda>n. - int n) (decimal cs)
                        else if c = CHR ''+'' then map_option int (decimal cs)
                        else map_option int (decimal t))
      in case signed of None \<Rightarrow> Inl (IntValueError x) | Some n \<Rightarrow> Inr n)"

text \<open>\<open>int(response.headers.get("content-length", 0))\<close>: a missing header gives 0.\<close>

definition declared_total :: "response \<Rightarrow> error + int" where
  "declared_total resp =
     (case content_length resp of None \<Rightarrow> Inr 0 | Some h \<Rightarrow> py_int h)"

text \<open>
  \<open>os.makedirs(p, exist_ok=True)\<close>: the missing directories on the way to \<open>p\<close> are
  created from the top; an existing directory is left as it is; anything else in the way
  raises. Paths are compared as they are written (no normalisation).
\<close>

definition ancestors :: "path \<Rightarrow> path list" where
  "ancestors p = map (\<lambda>i. take i p) (filter (\<lambda>i. p ! i = CHR ''/'') [1..<length p])"

fun mkdirs :: "filesystem \<Rightarrow> path list \<Rightarrow> error + filesystem" where
  "mkdirs fs [] = Inr fs"
| "mkdirs fs (q # qs) =
     (case map_of fs q of
        None \<Rightarrow> mkdirs (fs @ [(q, Directory)]) qs
      | Some n \<Rightarrow>
          (case resolve n of
             Some Directory \<Rightarrow> mkdirs fs qs
           | Some _ \<Rightarrow> Inl (if qs = [] then FileExistsError else NotADirectoryError)
           | None \<Rightarrow> Inl FileExistsError))"

definition os_makedirs :: "path \<Rightarrow> state \<Rightarrow> unit result" where
  "os_makedirs p s =
     (let s1 = log (MakeDirs p) s
      in case mkdirs (disk s1) (ancestors p @ [p]) of
           Inl e \<Rightarrow> (Inl e, s1)
         | Inr fs' \<Rightarrow> (Inr (), s1\<lparr>disk := fs'\<rparr>))"

definition requests_get :: "world \<Rightarrow> string \<Rightarrow> state \<Rightarrow> response result" where
  "requests_get w url s = (remote w, log (HttpGet url) s)"

text \<open>\<open>open(p, "wb")\<close> creates the file or empties it, through symbolic links.\<close>

fun truncated :: "node \<Rightarrow> error + node" where
  "truncated (RegularFile ok b) = (if ok then Inr (RegularFile ok []) else Inl PermissionError)"
| "truncated Directory = Inl IsADirectoryError"
| "truncated (SymLink n) = (case truncated n of Inl e \<Rightarrow> Inl e | Inr n' \<Rightarrow> Inr (SymLink n'))"
| "truncated BrokenLink = Inr (SymLink (RegularFile True []))"

definition open_wb :: "path \<Rightarrow> state \<Rightarrow> unit result" where
  "open_wb p s =
     (let s1 = log (OpenWrite p) s
      in case map_of (disk s1) p of
           None \<Rightarrow> (Inr (), s1\<lparr>disk := disk s1 @ [(p, RegularFile True [])]\<rparr>)
         | Some n \<Rightarrow>
             (case truncated n of
                Inl e \<Rightarrow> (Inl e, s1)
              | Inr n' \<Rightarrow> (Inr (), s1\<lparr>disk := setitem (disk s1) p n'\<rparr>)))"

text \<open>\<open>file.write(data)\<close> appends to the open file and returns the number of bytes.\<close>

fun appended :: "bytes \<Rightarrow> node \<Rightarrow> node" where
  "appended d (RegularFile ok b) = RegularFile ok (b @ d)"
| "appended d (SymLink n) = SymLink (appended d n)"
| "appended d n = n"

definition file_write :: "path \<Rightarrow> bytes \<Rightarrow> state \<Rightarrow> nat \<times> state" where
  "file_write p d s =
      (length d,
      (log (FileWrite p d) s)
        \<lparr>disk := map (\<lambda>(q, n). if q = p then (q, appended d n) else (q, n)) (disk s)\<rparr>)"

text \<open>The body of the download loop: each chunk is written, then the bar is advanced.\<close>

fun write_chunks :: "path \<Rightarrow> bytes list \<Rightarrow> state \<Rightarrow> state" where
  "write_chunks p [] s = s"
| "write_chunks p (d # ds) s =
     (case file_write p d s of (written, s1) \<Rightarrow> write_chunks p ds (log (ProgressUpdate written) s1))"

text \<open>
  \<open>zipfile.ZipFile(zip_path).extractall(target)\<close>: the members are extracted one after
  the other under the target directory. For each member the missing directories above it
  are made first; a directory entry is made unless it is there; a file is written with
  \<open>open(path, "wb")\<close>, replacing the bytes of a file that is there. An exception ends the
  extraction and leaves what the earlier members wrote.
\<close>

fun make_parents :: "filesystem \<Rightarrow> path list \<Rightarrow> error + filesystem" where
  "make_parents fs [] = Inr fs"
| "make_parents fs (q # qs) =
     (case map_of fs q of
        None \<Rightarrow> make_parents (fs @ [(q, Directory)]) qs
      | Some n \<Rightarrow>
          (case resolve n of
             Some Directory \<Rightarrow> make_parents fs qs
           | Some _ \<Rightarrow> Inl NotADirectoryError
           | None \<Rightarrow> Inl FileExistsError))"

definition extract_member :: "path \<Rightarrow> bytes option \<Rightarrow> filesystem \<Rightarrow> error + filesystem" where
  "extract_member p content fs =
     (case make_parents fs (ancestors p) of
        Inl e \<Rightarrow> Inl e
      | Inr fs1 \<Rightarrow>
          (case content of
             None \<Rightarrow>
               (if stat fs1 p = Some Directory then Inr fs1
                else case map_of fs1 p of
                       None \<Rightarrow> Inr (fs1 @ [(p, Directory)])
                     | Some n \<Rightarrow> Inl FileExistsError)
           | Some b \<Rightarrow>
               (case map_of fs1 p of
                  None \<Rightarrow> Inr (fs1 @ [(p, RegularFile True b)])
                | Some n \<Rightarrow>
                    (case truncated n of
                       Inl e \<Rightarrow> Inl e
                     | Inr n' \<Rightarrow> Inr (setitem fs1 p (appended b n'))))))"

fun install :: "path \<Rightarrow> (path \<times> bytes option) list \<Rightarrow> filesystem \<Rightarrow> (error + unit) \<times> filesystem" where
  "install target [] fs = (Inr (), fs)"
| "install target ((rel, content) # ms) fs =
     (case extract_member (os_path_join target rel) content fs of
        Inl e \<Rightarrow> (Inl e, fs)
      | Inr fs1 \<Rightarrow> install target ms fs1)"

definition extractall :: "world \<Rightarrow> path \<Rightarrow> path \<Rightarrow> state \<Rightarrow> unit result" where
  "extractall w zip_path target s =
     (let s1 = log (ExtractAll zip_path target) s
      in case stat (disk s1) zip_path of
           None \<Rightarrow> (Inl FileNotFoundError, s1)
         | Some (RegularFile ok b) \<Rightarrow>
             (if \<not> ok then (Inl PermissionError, s1)
              else case unzip w b of
                     Inl e \<Rightarrow> (Inl e, s1)
                   | Inr members \<Rightarrow>
                       (case install target members (disk s1) of
                          (r, fs1) \<Rightarrow> (r, s1\<lparr>disk := fs1\<rparr>)))
         | Some _ \<Rightarrow> (Inl IsADirectoryError, s1))"

definition os_remove :: "path \<Rightarrow> state \<Rightarrow> unit result" where
  "os_remove p s =
     (let s1 = log (Remove p) s
      in case map_of (disk s1) p of
           None \<Rightarrow> (Inl FileNotFoundError, s1)
         | Some n \<Rightarrow>
             if n = Directory then (Inl IsADirectoryError, s1)
             else (Inr (), s1\<lparr>disk := filter (\<lambda>(q, m). q \<noteq> p) (disk s1)\<rparr>))"

text \<open>
  Lines 57 to 68: the request, the declared total, and the loop that streams the body to
  the temporary file. The total goes to the progress bar and nowhere else.
\<close>

definition download :: "world \<Rightarrow> path \<Rightarrow> state \<Rightarrow> unit result" where
  "download w zip_path s =
     and_then (requests_get w MMASH_URL s) (\<lambda>resp s1.
       case declared_total resp of
         Inl e \<Rightarrow> (Inl e, s1)
       | Inr bar_total \<Rightarrow>
           and_then (open_wb zip_path s1) (\<lambda>_ s2.
             let s3 = write_chunks zip_path (chunks resp) (log (ProgressTotal bar_total) s2)
             in case stream_error resp of
                  Some e \<Rightarrow> (Inl e, s3)
                | None \<Rightarrow> (Inr (), s3)))"

definition download_and_extract :: "world \<Rightarrow> dataset \<Rightarrow> state \<Rightarrow> unit result" where
  "download_and_extract w self s =
     and_then (os_makedirs (dataset_folder self) s) (\<lambda>_ s1.
       let zip_path = os_path_join (dataset_folder self) ''mmash.zip''
       in and_then (download w zip_path s1) (\<lambda>_ s2.
            and_then (extractall w zip_path (dataset_folder self) s2) (\<lambda>_ s3.
              os_remove zip_path s3)))"

subsection \<open>Discovery and assembly\<close>

text \<open>
  The five blocks of the \<open>try\<close> body, in the order the source writes them: the table
  name that is looked up in \<open>self.tables\<close> and the file that is read for it.
\<close>

definition TABLE_FILES :: "(string \<times> string) list" where
  "TABLE_FILES =
     [(''sleep'', ''sleep.csv''),
      (''activity'', ''Activity.csv''),
      (''user_info'', ''user_info.csv''),
      (''questionnaire'', ''questionnaire.csv''),
      (''rr'', ''RR.csv'')]"

text \<open>
  One block: if the name is requested, read the file, set the \<open>user_id\<close> column and
  store the table in the record. An exception leaves the remaining blocks unexecuted.
\<close>

fun read_tables ::
  "world \<Rightarrow> dataset \<Rightarrow> path \<Rightarrow> string \<Rightarrow> (string \<times> string) list \<Rightarrow> table_record \<Rightarrow> state
     \<Rightarrow> table_record result" where
  "read_tables w self user_path user_id [] rec s = (Inr rec, s)"
| "read_tables w self user_path user_id ((name, file) # blocks) rec s =
     (if name \<in> set (tables self) then
        and_then (pd_read_csv w (os_path_join user_path file) s) (\<lambda>df s1.
          read_tables w self user_path user_id blocks
            (setitem rec name (set_scalar_column df ''user_id'' (CellStr user_id))) s1)
      else read_tables w self user_path user_id blocks rec s)"

text \<open>
  The body of the loop over the sorted names: an entry that is not a directory is passed
  over; \<open>FileNotFoundError\<close> from the \<open>try\<close> body passes over the subject; any other
  exception leaves the loop; otherwise the record is added under the subject's name as
  patient and as visit.
\<close>

definition load_user :: "world \<Rightarrow> dataset \<Rightarrow> path \<Rightarrow> string \<Rightarrow> state \<Rightarrow> unit result" where
  "load_user w self root_dir user_id s =
     (let user_path = os_path_join root_dir user_id;
          s1 = log (IsDir user_path) s
      in if \<not> os_path_isdir (disk s1) user_path then (Inr (), s1)
         else case read_tables w self user_path user_id TABLE_FILES [] s1 of
                (Inl e, s2) \<Rightarrow> if e = FileNotFoundError then (Inr (), s2) else (Inl e, s2)
              | (Inr rec, s2) \<Rightarrow> (Inr (), add_sample user_id user_id rec s2))"

fun load_users :: "world \<Rightarrow> dataset \<Rightarrow> path \<Rightarrow> string list \<Rightarrow> state \<Rightarrow> unit result" where
  "load_users w self root_dir [] s = (Inr (), s)"
| "load_users w self root_dir (user_id # users) s =
     and_then (load_user w self root_dir user_id s) (\<lambda>_ s1. load_users w self root_dir users s1)"

definition load_data :: "world \<Rightarrow> dataset \<Rightarrow> state \<Rightarrow> unit result" where
  "load_data w self s =
     (let root_dir = os_path_join (dataset_folder self) ''MMASH'';
          s1 = log (ListDir root_dir) s
      in case os_listdir (disk s1) root_dir of
           Inl e \<Rightarrow> (Inl e, s1)
         | Inr names \<Rightarrow> load_users w self root_dir (sort names) s1)"

subsection \<open>Construction\<close>

text \<open>
  A run of the constructor starts on the given file system with an empty log and no
  samples. Validation comes first; then the marker directory is looked for and the
  archive fetched if it is absent; then the data is loaded.
\<close>

definition initial :: "filesystem \<Rightarrow> state" where
  "initial fs0 = \<lparr>disk = fs0, io = [], samples = []\<rparr>"

definition MMASHDataset_init ::
  "world \<Rightarrow> filesystem \<Rightarrow> string \<Rightarrow> string list option \<Rightarrow> bool \<Rightarrow> dataset result" where
  "MMASHDataset_init w fs0 root_arg tables_arg dev_arg =
     (case validate_tables tables_arg of
        Inl e \<Rightarrow> (Inl e, initial fs0)
      | Inr ts \<Rightarrow>
          (let self = \<lparr>root = root_arg, tables = ts, dev = dev_arg,
                       dataset_folder = os_path_join root_arg MMASH_FOLDER\<rparr>;
               marker = os_path_join (dataset_folder self) ''MMASH'';
               s1 = log (PathExists marker) (initial fs0)
           in and_then
                (if \<not> os_path_exists (disk s1) marker then download_and_extract w self s1
                 else (Inr (), s1))
                (\<lambda>_ s2. and_then (load_data w self s2) (\<lambda>_ s3. (Inr self, s3)))))"

subsection \<open>Notions used in the statements\<close>

text \<open>
  The exceptions that reading the requested tables of one subject would raise, in the
  order of the blocks. The first of them, if there is one, is what the \<open>try\<close> body raises.
\<close>

definition read_failures ::
  "world \<Rightarrow> filesystem \<Rightarrow> dataset \<Rightarrow> path \<Rightarrow> (string \<times> string) list \<Rightarrow> error list" where
  "read_failures w files self user_path blocks =
     List.map_filter
       (\<lambda>(name, fname).
          if name \<in> set (tables self) then
            (case read_csv_result (parse_csv w) files (os_path_join user_path fname) of
               Inl e \<Rightarrow> Some e
             | Inr _ \<Rightarrow> None)
          else None)
       blocks"

text \<open>The files of the requested tables of one subject, in the order of the blocks.\<close>

definition requested_files :: "dataset \<Rightarrow> path \<Rightarrow> (string \<times> string) list \<Rightarrow> path list" where
  "requested_files self user_path blocks =
     map (\<lambda>(name, fname). os_path_join user_path fname)
       (filter (\<lambda>(name, fname). name \<in> set (tables self)) blocks)"

text \<open>The tables whose source file exists in a subject's directory.\<close>

definition present_tables :: "filesystem \<Rightarrow> path \<Rightarrow> string list" where
  "present_tables files user_path =
     map fst (filter (\<lambda>(name, fname). os_path_exists files (os_path_join user_path fname)) TABLE_FILES)"

text \<open>The calls that only acquisition makes: network, progress bar, and writes to disk.\<close>

fun is_acquisition :: "io_event \<Rightarrow> bool" where
  "is_acquisition (MakeDirs p) = True"
| "is_acquisition (HttpGet url) = True"
| "is_acquisition (OpenWrite p) = True"
| "is_acquisition (FileWrite p d) = True"
| "is_acquisition (ProgressTotal n) = True"
| "is_acquisition (ProgressUpdate n) = True"
| "is_acquisition (ExtractAll z t) = True"
| "is_acquisition (Remove p) = True"
| "is_acquisition (PathExists p) = False"
| "is_acquisition (ListDir p) = False"
| "is_acquisition (IsDir p) = False"
| "is_acquisition (ReadCsv p) = False"

text \<open>
  The result of the \<open>try\<close> body for one subject on a given file system: the record, or
  the exception that ends the body. It is read off a run of \<open>read_tables\<close> on a fresh
  state; the result does not depend on the log or the samples of the state.
\<close>

definition assemble :: "world \<Rightarrow> dataset \<Rightarrow> filesystem \<Rightarrow> path \<Rightarrow> string \<Rightarrow> error + table_record" where
  "assemble w self files root_dir user_id =
     fst (read_tables w self (os_path_join root_dir user_id) user_id TABLE_FILES [] (initial files))"

text \<open>The object that the constructor builds, and its acquisition step (lines 47 to 49).\<close>

definition new_self :: "string \<Rightarrow> string list \<Rightarrow> bool \<Rightarrow> dataset" where
  "new_self root_arg ts dev_arg =
     \<lparr>root = root_arg, tables = ts, dev = dev_arg, dataset_folder = os_path_join root_arg MMASH_FOLDER\<rparr>"

definition acquire :: "world \<Rightarrow> dataset \<Rightarrow> state \<Rightarrow> unit result" where
  "acquire w self s1 =
     (if \<not> os_path_exists (disk s1) (os_path_join (dataset_folder self) ''MMASH'')
      then download_and_extract w self s1 else (Inr (), s1))"

text \<open>The chunks written to files, as the log has them.\<close>

fun written :: "io_event list \<Rightarrow> (path \<times> bytes) list" where
  "written [] = []"
| "written (FileWrite p d # es) = (p, d) # written es"
| "written (e # es) = written es"

subsection \<open>A small world for concrete runs\<close>

text \<open>
  An unpacked archive under \<open>data\<close>: \<open>user_1\<close> has all five files, \<open>user_2\<close> lacks
  \<open>RR.csv\<close>, \<open>user_3\<close> is a symbolic link to a directory, \<open>user_4\<close> has a sleep file
  and a questionnaire that may not be opened, and \<open>notes.txt\<close> is a plain file. The parser of this world
  gives every non-empty file one row with a \<open>user_id\<close> column of its own.
\<close>

definition demo_parse :: "bytes \<Rightarrow> csv_error + dataframe" where
  "demo_parse b =
     (if b = [] then Inl EmptyDataError
      else Inr \<lparr>n_rows = 1, columns = [(''user_id'', [CellInt 7]), (''value'', [CellStr b])]\<rparr>)"

definition demo_world :: world where
  "demo_world = \<lparr>remote = Inl ConnectionError, unzip = (\<lambda>b. Inl BadZipFile), parse_csv = demo_parse\<rparr>"

definition demo_files :: filesystem where
  "demo_files =
     [(''data'', Directory),
      (''data/MMASH'', Directory),
      (''data/MMASH/MMASH'', Directory),
      (''data/MMASH/MMASH/user_2'', Directory),
      (''data/MMASH/MMASH/user_2/sleep.csv'', RegularFile True ''s2''),
      (''data/MMASH/MMASH/user_2/Activity.csv'', RegularFile True ''a2''),
      (''data/MMASH/MMASH/user_2/user_info.csv'', RegularFile True ''u2''),
      (''data/MMASH/MMASH/user_2/questionnaire.csv'', RegularFile True ''q2''),
      (''data/MMASH/MMASH/notes.txt'', RegularFile True ''n''),
      (''data/MMASH/MMASH/user_1'', Directory),
      (''data/MMASH/MMASH/user_1/sleep.csv'', RegularFile True ''s1''),
      (''data/MMASH/MMASH/user_1/Activity.csv'', RegularFile True ''a1''),
      (''data/MMASH/MMASH/user_1/user_info.csv'', RegularFile True ''u1''),
      (''data/MMASH/MMASH/user_1/questionnaire.csv'', RegularFile True ''q1''),
      (''data/MMASH/MMASH/user_1/RR.csv'', RegularFile True ''r1''),
      (''data/MMASH/MMASH/user_4'', Directory),
      (''data/MMASH/MMASH/user_4/sleep.csv'', RegularFile True ''s4''),
      (''data/MMASH/MMASH/user_4/questionnaire.csv'', RegularFile False ''q4''),
      (''data/MMASH/MMASH/user_3'', SymLink Directory),
      (''data/MMASH/MMASH/user_3/sleep.csv'', RegularFile True ''s3'')]"

definition demo_self :: "string list \<Rightarrow> dataset" where
  "demo_self ts = \<lparr>root = ''data'', tables = ts, dev = False, dataset_folder = ''data/MMASH''\<rparr>"

text \<open>The two tables of \<open>user_1\<close> as the loader leaves them.\<close>

definition demo_sleep_1 :: dataframe where
  "demo_sleep_1 =
     \<lparr>n_rows = 1, columns = [(''user_id'', [CellStr ''user_1'']), (''value'', [CellStr ''s1''])]\<rparr>"

definition demo_rr_1 :: dataframe where
  "demo_rr_1 =
     \<lparr>n_rows = 1, columns = [(''user_id'', [CellStr ''user_1'']), (''value'', [CellStr ''r1''])]\<rparr>"

text \<open>The names that listing the unpacked directory gives, in the order of the file system.\<close>

definition demo_names :: "string list" where
  "demo_names = [''user_2'', ''notes.txt'', ''user_1'', ''user_4'', ''user_3'']"

text \<open>An unpacked archive without any subject directory.\<close>

definition bare_files :: filesystem where
  "bare_files =
     [(''data'', Directory),
      (''data/MMASH'', Directory),
      (''data/MMASH/MMASH'', Directory),
      (''data/MMASH/MMASH/README.md'', RegularFile True ''readme'')]"


definition missing_length_response :: response where
  "missing_length_response =
     \<lparr>content_length = None, chunks = [''PK'', ''zip''], stream_error = None\<rparr>"



text \<open>
  A world whose server sends an archive with one member, the sleep file of \<open>user_1\<close>;
  the archive lists no directory entries.
\<close>

definition archive_world :: world where
  "archive_world =
     \<lparr>remote = Inr missing_length_response,
      unzip = (\<lambda>b. if b = ''PKzip'' then Inr [(''MMASH/user_1/sleep.csv'', Some ''s1'')]
                    else Inl BadZipFile),
      parse_csv = demo_parse\<rparr>"

section \<open>Properties\<close>

subsection \<open>Basic facts\<close>

lemma log_simps [simp]:
  "disk (log e s) = disk s" "samples (log e s) = samples s" "io (log e s) = io s @ [e]"
  by (simp_all add: log_def)

lemma and_then_simps [simp]:
  "and_then (Inl e, s) f = (Inl e, s)" "and_then (Inr a, s) f = f a s"
  by (simp_all add: and_then_def)

lemma add_sample_simps [simp]:
  "disk (add_sample p v rec s) = disk s" "io (add_sample p v rec s) = io s"
  "samples (add_sample p v rec s) = samples s @ [(p, v, rec)]"
  by (simp_all add: add_sample_def)

lemma setitem_keys: "fst ` set (setitem kvs k v) = insert k (fst ` set kvs)"
  by (induction kvs k v rule: setitem.induct) auto

lemma setitem_entries: "x \<in> set (setitem kvs k v) \<Longrightarrow> x = (k, v) \<or> x \<in> set kvs"
  by (induction kvs k v rule: setitem.induct) (auto split: if_splits)

lemma setitem_distinct: "distinct (map fst kvs) \<Longrightarrow> distinct (map fst (setitem kvs k v))"
  by (induction kvs k v rule: setitem.induct) (auto simp: setitem_keys)

lemma setitem_lookup: "map_of (setitem kvs k v) k = Some v"
  by (induction kvs k v rule: setitem.induct) auto

lemma column_set_scalar_column:
  "column (set_scalar_column df name v) name = Some (replicate (n_rows df) v)"
  by (simp add: column_def set_scalar_column_def setitem_lookup)

lemma n_rows_set_scalar_column: "n_rows (set_scalar_column df name v) = n_rows df"
  by (simp add: set_scalar_column_def)

lemma read_csv_missing:
  "read_csv_result parse files p = Inl FileNotFoundError \<longleftrightarrow> \<not> os_path_exists files p"
  by (auto simp: read_csv_result_def os_path_exists_def split: option.splits node.splits sum.splits)

subsection \<open>The blocks of the try body\<close>

text \<open>A block does one of three things: nothing, raise, or read and go on.\<close>

lemma read_tables_skip:
  "name \<notin> set (tables self) \<Longrightarrow>
   read_tables w self up uid ((name, fname) # blocks) rec s = read_tables w self up uid blocks rec s"
  by simp

lemma read_tables_fail:
  "name \<in> set (tables self) \<Longrightarrow>
   read_csv_result (parse_csv w) (disk s) (os_path_join up fname) = Inl e \<Longrightarrow>
   read_tables w self up uid ((name, fname) # blocks) rec s =
     (Inl e, log (ReadCsv (os_path_join up fname)) s)"
  by (simp add: pd_read_csv_def)

lemma read_tables_read:
  "name \<in> set (tables self) \<Longrightarrow>
   read_csv_result (parse_csv w) (disk s) (os_path_join up fname) = Inr df \<Longrightarrow>
   read_tables w self up uid ((name, fname) # blocks) rec s =
     read_tables w self up uid blocks
       (setitem rec name (set_scalar_column df ''user_id'' (CellStr uid)))
       (log (ReadCsv (os_path_join up fname)) s)"
  by (simp add: pd_read_csv_def)

declare read_tables.simps(2) [simp del]

lemma read_tables_induct [consumes 0, case_names Nil Skip Fail Read]:
  assumes "\<And>rec s. P [] rec s"
    and "\<And>name fname blocks rec s.
           name \<notin> set (tables self) \<Longrightarrow> P blocks rec s \<Longrightarrow> P ((name, fname) # blocks) rec s"
    and "\<And>name fname blocks rec s e.
           name \<in> set (tables self) \<Longrightarrow>
           read_csv_result (parse_csv w) (disk s) (os_path_join up fname) = Inl e \<Longrightarrow>
           P ((name, fname) # blocks) rec s"
    and "\<And>name fname blocks rec s df.
           name \<in> set (tables self) \<Longrightarrow>
           read_csv_result (parse_csv w) (disk s) (os_path_join up fname) = Inr df \<Longrightarrow>
           P blocks (setitem rec name (set_scalar_column df ''user_id'' (CellStr uid)))
             (log (ReadCsv (os_path_join up fname)) s) \<Longrightarrow>
           P ((name, fname) # blocks) rec s"
  shows "P blocks rec s"
proof -
  have "\<forall>rec s. P blocks rec s"
  proof (induction blocks)
    case Nil
    show ?case by (simp add: assms(1))
  next
    case (Cons b blocks)
    obtain n f where b: "b = (n, f)" by (cases b)
    show ?case
    proof (intro allI)
      fix rec s
      show "P (b # blocks) rec s"
      proof (cases "n \<in> set (tables self)")
        case False
        then show ?thesis unfolding b using Cons.IH by (simp add: assms(2))
      next
        case True
        show ?thesis
        proof (cases "read_csv_result (parse_csv w) (disk s) (os_path_join up f)")
          case (Inl e)
          with True show ?thesis unfolding b by (rule assms(3))
        next
          case (Inr df)
          with True show ?thesis unfolding b using Cons.IH by (simp add: assms(4))
        qed
      qed
    qed
  qed
  then show ?thesis by simp
qed

lemma read_tables_disk: "disk (snd (read_tables w self up uid blocks rec s)) = disk s"
proof (induction blocks rec s rule: read_tables_induct[where w = w and self = self and up = up and uid = uid])
  case (Nil rec s)
  then show ?case by simp
next
  case (Skip name fname blocks rec s)
  then show ?case by (simp add: read_tables_skip)
next
  case (Fail name fname blocks rec s e)
  then show ?case by (simp add: read_tables_fail)
next
  case (Read name fname blocks rec s df)
  then show ?case by (simp add: read_tables_read)
qed

lemma read_tables_samples: "samples (snd (read_tables w self up uid blocks rec s)) = samples s"
proof (induction blocks rec s rule: read_tables_induct[where w = w and self = self and up = up and uid = uid])
  case (Nil rec s)
  then show ?case by simp
next
  case (Skip name fname blocks rec s)
  then show ?case by (simp add: read_tables_skip)
next
  case (Fail name fname blocks rec s e)
  then show ?case by (simp add: read_tables_fail)
next
  case (Read name fname blocks rec s df)
  then show ?case by (simp add: read_tables_read)
qed

lemma read_failures_Nil [simp]: "read_failures w files self up [] = []"
  by (simp add: read_failures_def map_filter_simps)

lemma read_failures_skip:
  "name \<notin> set (tables self) \<Longrightarrow>
   read_failures w files self up ((name, fname) # blocks) = read_failures w files self up blocks"
  by (simp add: read_failures_def map_filter_simps)

lemma read_failures_fail:
  "name \<in> set (tables self) \<Longrightarrow>
   read_csv_result (parse_csv w) files (os_path_join up fname) = Inl e \<Longrightarrow>
   read_failures w files self up ((name, fname) # blocks) = e # read_failures w files self up blocks"
  by (simp add: read_failures_def map_filter_simps)

lemma read_failures_read:
  "name \<in> set (tables self) \<Longrightarrow>
   read_csv_result (parse_csv w) files (os_path_join up fname) = Inr df \<Longrightarrow>
   read_failures w files self up ((name, fname) # blocks) = read_failures w files self up blocks"
  by (simp add: read_failures_def map_filter_simps)

lemma read_tables_raises:
  "read_failures w (disk s) self up blocks = e # es \<Longrightarrow>
   fst (read_tables w self up uid blocks rec s) = Inl e"
proof (induction blocks rec s rule: read_tables_induct[where w = w and self = self and up = up and uid = uid])
  case (Nil rec s)
  then show ?case by simp
next
  case (Skip name fname blocks rec s)
  then show ?case by (simp add: read_tables_skip read_failures_skip)
next
  case (Fail name fname blocks rec s e')
  then show ?case by (simp add: read_tables_fail read_failures_fail)
next
  case (Read name fname blocks rec s df)
  then show ?case by (simp add: read_tables_read read_failures_read)
qed

lemma read_tables_returns:
  "read_failures w (disk s) self up blocks = [] \<Longrightarrow>
   \<exists>rec'. fst (read_tables w self up uid blocks rec s) = Inr rec'"
proof (induction blocks rec s rule: read_tables_induct[where w = w and self = self and up = up and uid = uid])
  case (Nil rec s)
  then show ?case by simp
next
  case (Skip name fname blocks rec s)
  then show ?case by (simp add: read_tables_skip read_failures_skip)
next
  case (Fail name fname blocks rec s e')
  then show ?case by (simp add: read_tables_fail read_failures_fail)
next
  case (Read name fname blocks rec s df)
  then show ?case by (simp add: read_tables_read read_failures_read)
qed

subsection \<open>One subject\<close>

lemma load_user_not_dir:
  "\<not> os_path_isdir (disk s) (os_path_join rd u) \<Longrightarrow>
   load_user w self rd u s = (Inr (), log (IsDir (os_path_join rd u)) s)"
  by (simp add: load_user_def)

lemma load_user_raises:
  "os_path_isdir (disk s) (os_path_join rd u) \<Longrightarrow>
   read_tables w self (os_path_join rd u) u TABLE_FILES [] (log (IsDir (os_path_join rd u)) s) =
     (Inl e, s2) \<Longrightarrow>
   load_user w self rd u s = (if e = FileNotFoundError then Inr () else Inl e, s2)"
  by (simp add: load_user_def)

lemma load_user_adds:
  "os_path_isdir (disk s) (os_path_join rd u) \<Longrightarrow>
   read_tables w self (os_path_join rd u) u TABLE_FILES [] (log (IsDir (os_path_join rd u)) s) =
     (Inr rec, s2) \<Longrightarrow>
   load_user w self rd u s = (Inr (), add_sample u u rec s2)"
  by (simp add: load_user_def)

subsection \<open>Missing files and other read errors\<close>

text \<open>
  C1. Take a subject directory and the first requested table, in the order of the
  blocks, whose read raises. If it raises \<open>FileNotFoundError\<close>, which is exactly the case
  of a path that does not exist, the subject is passed over: no sample is added, also
  when earlier tables were read, and the loop goes on with the remaining subjects. If it
  raises anything else, the exception leaves the loop: the load ends with it in the state
  reached at that read, and no remaining subject is looked at.
\<close>

theorem missing_file_skips_subject_other_errors_abort:
  assumes "os_path_isdir (disk s) (os_path_join root_dir u)"
    and "read_failures w (disk s) self (os_path_join root_dir u) TABLE_FILES = e # es"
  shows "(e = FileNotFoundError \<longrightarrow>
           (\<exists>s1. load_user w self root_dir u s = (Inr (), s1) \<and> samples s1 = samples s \<and>
                 load_users w self root_dir (u # us) s = load_users w self root_dir us s1))
       \<and> (e \<noteq> FileNotFoundError \<longrightarrow>
           (\<exists>s1. load_user w self root_dir u s = (Inl e, s1) \<and> samples s1 = samples s \<and>
                 load_users w self root_dir (u # us) s = (Inl e, s1)))
       \<and> (\<forall>p. read_csv_result (parse_csv w) (disk s) p = Inl FileNotFoundError \<longleftrightarrow>
                \<not> os_path_exists (disk s) p)"
proof -
  let ?up = "os_path_join root_dir u"
  let ?s0 = "log (IsDir ?up) s"
  obtain r s2 where run: "read_tables w self ?up u TABLE_FILES [] ?s0 = (r, s2)"
    by (cases "read_tables w self ?up u TABLE_FILES [] ?s0")
  from assms(2) have "fst (read_tables w self ?up u TABLE_FILES [] ?s0) = Inl e"
    by (intro read_tables_raises[where es = es]) simp
  with run have r: "r = Inl e" by simp
  from run have smp: "samples s2 = samples s"
    using read_tables_samples[of w self ?up u TABLE_FILES "[]" ?s0] by simp
  from assms(1) run r
  have lu: "load_user w self root_dir u s = (if e = FileNotFoundError then Inr () else Inl e, s2)"
    by (simp add: load_user_raises)
  show ?thesis using lu smp by (auto simp: read_csv_missing)
qed

theorem missing_file_skips_subject_other_errors_abort_witness:
  "os_path_isdir (disk (initial demo_files)) (os_path_join ''data/MMASH/MMASH'' ''user_2'')
   \<and> read_failures demo_world (disk (initial demo_files)) (demo_self [''sleep'', ''rr''])
        (os_path_join ''data/MMASH/MMASH'' ''user_2'') TABLE_FILES = [FileNotFoundError]
   \<and> (\<exists>s1. load_user demo_world (demo_self [''sleep'', ''rr'']) ''data/MMASH/MMASH'' ''user_2''
              (initial demo_files) = (Inr (), s1)
          \<and> samples s1 = samples (initial demo_files)
          \<and> load_users demo_world (demo_self [''sleep'', ''rr'']) ''data/MMASH/MMASH''
              [''user_2'', ''user_4''] (initial demo_files)
            = load_users demo_world (demo_self [''sleep'', ''rr'']) ''data/MMASH/MMASH''
              [''user_4''] s1)
   \<and> os_path_isdir (disk (initial demo_files)) (os_path_join ''data/MMASH/MMASH'' ''user_4'')
   \<and> read_failures demo_world (disk (initial demo_files)) (demo_self [''questionnaire''])
        (os_path_join ''data/MMASH/MMASH'' ''user_4'') TABLE_FILES = [PermissionError]
   \<and> (\<exists>s1. load_users demo_world (demo_self [''questionnaire'']) ''data/MMASH/MMASH''
              [''user_4'', ''user_5''] (initial demo_files) = (Inl PermissionError, s1)
          \<and> samples s1 = samples (initial demo_files))"
proof -
  have d2: "os_path_isdir (disk (initial demo_files)) (os_path_join ''data/MMASH/MMASH'' ''user_2'')"
    by code_simp
  have f2: "read_failures demo_world (disk (initial demo_files)) (demo_self [''sleep'', ''rr''])
        (os_path_join ''data/MMASH/MMASH'' ''user_2'') TABLE_FILES = [FileNotFoundError]"
    by code_simp
  have d4: "os_path_isdir (disk (initial demo_files)) (os_path_join ''data/MMASH/MMASH'' ''user_4'')"
    by code_simp
  have f4: "read_failures demo_world (disk (initial demo_files)) (demo_self [''questionnaire''])
        (os_path_join ''data/MMASH/MMASH'' ''user_4'') TABLE_FILES = [PermissionError]"
    by code_simp
  note skip = missing_file_skips_subject_other_errors_abort[OF d2 f2, of "[''user_4'']"]
  note abort = missing_file_skips_subject_other_errors_abort[OF d4 f4, of "[''user_5'']"]
  from skip have "\<exists>s1. load_user demo_world (demo_self [''sleep'', ''rr'']) ''data/MMASH/MMASH'' ''user_2''
              (initial demo_files) = (Inr (), s1)
          \<and> samples s1 = samples (initial demo_files)
          \<and> load_users demo_world (demo_self [''sleep'', ''rr'']) ''data/MMASH/MMASH''
              [''user_2'', ''user_4''] (initial demo_files)
            = load_users demo_world (demo_self [''sleep'', ''rr'']) ''data/MMASH/MMASH''
              [''user_4''] s1"
    by blast
  moreover from abort have "\<exists>s1. load_users demo_world (demo_self [''questionnaire'']) ''data/MMASH/MMASH''
              [''user_4'', ''user_5''] (initial demo_files) = (Inl PermissionError, s1)
          \<and> samples s1 = samples (initial demo_files)"
    by blast
  ultimately show ?thesis using d2 f2 d4 f4 by blast
qed

subsection \<open>Validation\<close>

lemma check_tables_ok: "set ts \<subseteq> set ALL_TABLES \<Longrightarrow> check_tables ts = Inr ()"
  by (induction ts) auto

lemma check_tables_first:
  "find (\<lambda>x. x \<notin> set ALL_TABLES) ts = Some t \<Longrightarrow>
   check_tables ts = Inl (ValueError (unsupported_table_message t))"
  by (induction ts) (auto split: if_splits)

lemma check_tables_Inr: "check_tables ts = Inr u \<Longrightarrow> set ts \<subseteq> set ALL_TABLES"
  by (induction ts) (auto split: if_splits)

lemma validate_tables_ok: "set ts \<subseteq> set ALL_TABLES \<Longrightarrow> validate_tables (Some ts) = Inr ts"
  by (simp add: validate_tables_def check_tables_ok)

lemma validate_tables_Inr:
  "validate_tables tables_arg = Inr ts \<Longrightarrow> tables_arg = Some ts \<and> set ts \<subseteq> set ALL_TABLES"
  by (auto simp: validate_tables_def split: option.splits sum.splits dest: check_tables_Inr)

text \<open>
  C5. If the requested list holds a name outside the five table names, the constructor
  raises \<open>ValueError\<close>; the message is the one formatted for the first such name in the
  list, and it ends with the list of the allowed names. Nothing has been done by then:
  the log of calls is empty, the file system is the one the run started on, and no sample
  exists.
\<close>

theorem unsupported_table_fails_before_io:
  assumes "\<not> set ts \<subseteq> set ALL_TABLES"
  shows "\<exists>t. find (\<lambda>x. x \<notin> set ALL_TABLES) ts = Some t \<and> t \<in> set ts \<and> t \<notin> set ALL_TABLES \<and>
           MMASHDataset_init w fs0 root_arg (Some ts) dev_arg =
             (Inl (ValueError
                (''Unsupported table: '' @ t @ ''. Must be one of '' @ py_repr_list ALL_TABLES)),
              \<lparr>disk = fs0, io = [], samples = []\<rparr>)"
proof -
  from assms obtain t where t: "find (\<lambda>x. x \<notin> set ALL_TABLES) ts = Some t"
    by (cases "find (\<lambda>x. x \<notin> set ALL_TABLES) ts") (auto simp: find_None_iff)
  then have mem: "t \<in> set ts \<and> t \<notin> set ALL_TABLES"
    by (auto simp: find_Some_iff)
  from t have "check_tables ts = Inl (ValueError (unsupported_table_message t))"
    by (rule check_tables_first)
  then have "MMASHDataset_init w fs0 root_arg (Some ts) dev_arg =
      (Inl (ValueError (unsupported_table_message t)), initial fs0)"
    by (simp add: MMASHDataset_init_def validate_tables_def)
  with t mem show ?thesis
    by (simp add: unsupported_table_message_def initial_def)
qed

theorem unsupported_table_fails_before_io_witness:
  "\<not> set [''sleep'', ''heart'', ''steps''] \<subseteq> set ALL_TABLES \<and>
   MMASHDataset_init demo_world demo_files ''data'' (Some [''sleep'', ''heart'', ''steps'']) False =
     (Inl (ValueError (''Unsupported table: heart. Must be one of '' @ py_repr_list ALL_TABLES)),
      \<lparr>disk = demo_files, io = [], samples = []\<rparr>)"
proof -
  have h: "\<not> set [''sleep'', ''heart'', ''steps''] \<subseteq> set ALL_TABLES"
    by (simp add: ALL_TABLES_def)
  have f: "find (\<lambda>x. x \<notin> set ALL_TABLES) [''sleep'', ''heart'', ''steps''] = Some ''heart''"
    by (simp add: ALL_TABLES_def)
  from unsupported_table_fails_before_io[OF h, of demo_world demo_files "''data''" False] f h
  show ?thesis by simp
qed

text \<open>
  C3, as the code has it. A table argument that is left out (\<open>None\<close>) makes the
  constructor raise \<open>ValueError\<close> with a message that lists the allowed names, before any
  call is made. An empty list is not rejected: the loop over the names has nothing to
  check.
\<close>

theorem missing_tables_fails_before_io:
  "MMASHDataset_init w fs0 root_arg None dev_arg =
     (Inl (ValueError (''`tables` must be specified from '' @ py_repr_list ALL_TABLES)),
      \<lparr>disk = fs0, io = [], samples = []\<rparr>)"
  by (simp add: MMASHDataset_init_def validate_tables_def missing_tables_message_def initial_def)

text \<open>A run with the empty list on the small world: the loader is constructed.\<close>

theorem empty_table_list_is_accepted:
  "fst (MMASHDataset_init demo_world demo_files ''data'' (Some []) False) =
     Inr \<lparr>root = ''data'', tables = [], dev = False, dataset_folder = ''data/MMASH''\<rparr>"
  by code_simp

subsection \<open>The record of one subject\<close>

lemma read_tables_fst_disk:
  "disk s2 = disk s \<Longrightarrow>
   fst (read_tables w self up uid blocks rec s2) = fst (read_tables w self up uid blocks rec s)"
proof (induction blocks arbitrary: rec s s2)
  case Nil
  show ?case by simp
next
  case (Cons b blocks)
  obtain n f where b: "b = (n, f)" by (cases b)
  show ?case
  proof (cases "n \<in> set (tables self)")
    case False
    have "fst (read_tables w self up uid blocks rec s2) = fst (read_tables w self up uid blocks rec s)"
      using Cons.prems by (rule Cons.IH)
    with False show ?thesis unfolding b by (simp add: read_tables_skip)
  next
    case True
    show ?thesis
    proof (cases "read_csv_result (parse_csv w) (disk s) (os_path_join up f)")
      case (Inl e)
      then have "read_csv_result (parse_csv w) (disk s2) (os_path_join up f) = Inl e"
        using Cons.prems by simp
      with Inl True show ?thesis unfolding b by (simp add: read_tables_fail)
    next
      case (Inr df)
      then have r2: "read_csv_result (parse_csv w) (disk s2) (os_path_join up f) = Inr df"
        using Cons.prems by simp
      have d: "disk (log (ReadCsv (os_path_join up f)) s2) = disk (log (ReadCsv (os_path_join up f)) s)"
        using Cons.prems by simp
      show ?thesis
        unfolding b read_tables_read[OF True Inr] read_tables_read[OF True r2]
        using d by (rule Cons.IH)
    qed
  qed
qed

lemma assemble_eq:
  "fst (read_tables w self (os_path_join rd u) u TABLE_FILES [] s) = assemble w self (disk s) rd u"
  unfolding assemble_def by (rule read_tables_fst_disk[symmetric]) (simp add: initial_def)

lemma load_user_fst:
  "fst (load_user w self rd u s) =
     (if os_path_isdir (disk s) (os_path_join rd u) then
        (case assemble w self (disk s) rd u of
           Inl e \<Rightarrow> if e = FileNotFoundError then Inr () else Inl e
         | Inr rec \<Rightarrow> Inr ())
      else Inr ())"
proof (cases "os_path_isdir (disk s) (os_path_join rd u)")
  case False
  then show ?thesis by (simp add: load_user_not_dir)
next
  case True
  let ?s0 = "log (IsDir (os_path_join rd u)) s"
  obtain r s2 where run: "read_tables w self (os_path_join rd u) u TABLE_FILES [] ?s0 = (r, s2)"
    by (cases "read_tables w self (os_path_join rd u) u TABLE_FILES [] ?s0")
  have r: "assemble w self (disk s) rd u = r"
    using assemble_eq[of w self rd u ?s0] run by simp
  show ?thesis
  proof (cases r)
    case (Inl e)
    with True run r show ?thesis by (simp add: load_user_raises)
  next
    case (Inr rec)
    with True run r show ?thesis by (simp add: load_user_adds)
  qed
qed

lemma load_user_samples:
  "samples (snd (load_user w self rd u s)) =
     samples s @
     (if os_path_isdir (disk s) (os_path_join rd u) then
        (case assemble w self (disk s) rd u of Inl e \<Rightarrow> [] | Inr rec \<Rightarrow> [(u, u, rec)])
      else [])"
proof (cases "os_path_isdir (disk s) (os_path_join rd u)")
  case False
  then show ?thesis by (simp add: load_user_not_dir)
next
  case True
  let ?s0 = "log (IsDir (os_path_join rd u)) s"
  obtain r s2 where run: "read_tables w self (os_path_join rd u) u TABLE_FILES [] ?s0 = (r, s2)"
    by (cases "read_tables w self (os_path_join rd u) u TABLE_FILES [] ?s0")
  have r: "assemble w self (disk s) rd u = r"
    using assemble_eq[of w self rd u ?s0] run by simp
  have smp: "samples s2 = samples s"
    using read_tables_samples[of w self "os_path_join rd u" u TABLE_FILES "[]" ?s0] run by simp
  show ?thesis
  proof (cases r)
    case (Inl e)
    with True run r smp show ?thesis by (simp add: load_user_raises)
  next
    case (Inr rec)
    with True run r smp show ?thesis by (simp add: load_user_adds)
  qed
qed

lemma load_user_disk: "disk (snd (load_user w self rd u s)) = disk s"
proof (cases "os_path_isdir (disk s) (os_path_join rd u)")
  case False
  then show ?thesis by (simp add: load_user_not_dir)
next
  case True
  let ?s0 = "log (IsDir (os_path_join rd u)) s"
  obtain r s2 where run: "read_tables w self (os_path_join rd u) u TABLE_FILES [] ?s0 = (r, s2)"
    by (cases "read_tables w self (os_path_join rd u) u TABLE_FILES [] ?s0")
  have d: "disk s2 = disk s"
    using read_tables_disk[of w self "os_path_join rd u" u TABLE_FILES "[]" ?s0] run by simp
  show ?thesis
  proof (cases r)
    case (Inl e)
    with True run d show ?thesis by (simp add: load_user_raises)
  next
    case (Inr rec)
    with True run d show ?thesis by (simp add: load_user_adds)
  qed
qed

text \<open>One step of the loop over the subjects.\<close>

lemma load_users_Cons:
  "load_users w self rd (u # us) s =
     (case fst (load_user w self rd u s) of
        Inl e \<Rightarrow> (Inl e, snd (load_user w self rd u s))
      | Inr x \<Rightarrow> load_users w self rd us (snd (load_user w self rd u s)))"
  by (cases "load_user w self rd u s"; cases "fst (load_user w self rd u s)") auto

declare load_users.simps(2) [simp del]

lemma load_users_disk: "disk (snd (load_users w self rd us s)) = disk s"
proof (induction us arbitrary: s)
  case Nil
  show ?case by simp
next
  case (Cons u us)
  show ?case
    by (cases "fst (load_user w self rd u s)") (simp_all add: load_users_Cons load_user_disk Cons.IH)
qed

subsection \<open>The loop over the subjects\<close>

lemma load_users_new:
  "\<exists>new. samples (snd (load_users w self rd us s)) = samples s @ new \<and>
     subseq (map fst new) (filter (\<lambda>u. os_path_isdir (disk s) (os_path_join rd u)) us) \<and>
     (\<forall>x \<in> set new. fst (snd x) = fst x \<and> os_path_isdir (disk s) (os_path_join rd (fst x)) \<and>
        assemble w self (disk s) rd (fst x) = Inr (snd (snd x)))"
proof (induction us arbitrary: s)
  case Nil
  show ?case by simp
next
  case (Cons u us)
  let ?s1 = "snd (load_user w self rd u s)"
  let ?isdir = "\<lambda>u. os_path_isdir (disk s) (os_path_join rd u)"
  let ?good = "\<lambda>x. fst (snd x) = fst x \<and> ?isdir (fst x) \<and>
        assemble w self (disk s) rd (fst x) = Inr (snd (snd x))"
  have s1d: "disk ?s1 = disk s"
    by (rule load_user_disk)
  from Cons.IH[of ?s1] obtain new where new1:
      "samples (snd (load_users w self rd us ?s1)) = samples ?s1 @ new"
    and new2: "subseq (map fst new) (filter ?isdir us)"
    and new3: "\<forall>x \<in> set new. ?good x"
    unfolding s1d by (elim exE conjE)
  consider (notdir) "\<not> ?isdir u"
    | (raises) e where "?isdir u" "assemble w self (disk s) rd u = Inl e"
    | (adds) rec where "?isdir u" "assemble w self (disk s) rd u = Inr rec"
    by (cases "assemble w self (disk s) rd u") blast+
  then show ?case
  proof cases
    case notdir
    then have f: "fst (load_user w self rd u s) = Inr ()" and sm: "samples ?s1 = samples s"
      by (simp_all add: load_user_fst load_user_samples)
    have a: "samples (snd (load_users w self rd (u # us) s)) = samples s @ new"
      using f sm new1 by (simp add: load_users_Cons)
    have b: "subseq (map fst new) (filter ?isdir (u # us))"
      using new2 notdir by simp
    show ?thesis
      by (rule exI[of _ new]) (intro conjI a b new3)
  next
    case (raises e)
    then have sm: "samples ?s1 = samples s"
      by (simp add: load_user_samples)
    have b: "subseq (map fst new) (filter ?isdir (u # us))"
      using new2 raises(1) by auto
    show ?thesis
    proof (cases "e = FileNotFoundError")
      case True
      with raises have f: "fst (load_user w self rd u s) = Inr ()"
        by (simp add: load_user_fst)
      have a: "samples (snd (load_users w self rd (u # us) s)) = samples s @ new"
        using f sm new1 by (simp add: load_users_Cons)
      show ?thesis
        by (rule exI[of _ new]) (intro conjI a b new3)
    next
      case False
      with raises have f: "fst (load_user w self rd u s) = Inl e"
        by (simp add: load_user_fst)
      have a: "samples (snd (load_users w self rd (u # us) s)) = samples s @ []"
        using f sm by (simp add: load_users_Cons)
      show ?thesis
        by (rule exI[of _ "[]"]) (intro conjI a, simp_all)
    qed
  next
    case (adds rec)
    then have f: "fst (load_user w self rd u s) = Inr ()"
      and sm: "samples ?s1 = samples s @ [(u, u, rec)]"
      by (simp_all add: load_user_fst load_user_samples)
    have a: "samples (snd (load_users w self rd (u # us) s)) = samples s @ ((u, u, rec) # new)"
      using f sm new1 by (simp add: load_users_Cons)
    have b: "subseq (map fst ((u, u, rec) # new)) (filter ?isdir (u # us))"
      using new2 adds(1) by auto
    have c: "\<forall>x \<in> set ((u, u, rec) # new). ?good x"
      using new3 adds by simp
    show ?thesis
      by (rule exI[of _ "(u, u, rec) # new"]) (intro conjI a b c)
  qed
qed

lemma load_users_complete:
  assumes "\<forall>u \<in> set us. os_path_isdir (disk s) (os_path_join rd u) \<longrightarrow>
             (\<exists>rec. assemble w self (disk s) rd u = Inr rec)"
  shows "fst (load_users w self rd us s) = Inr () \<and>
         map fst (drop (length (samples s)) (samples (snd (load_users w self rd us s)))) =
           filter (\<lambda>u. os_path_isdir (disk s) (os_path_join rd u)) us"
  using assms
proof (induction us arbitrary: s)
  case Nil
  show ?case by simp
next
  case (Cons u us)
  let ?s1 = "snd (load_user w self rd u s)"
  have d: "disk ?s1 = disk s" by (rule load_user_disk)
  show ?case
  proof (cases "os_path_isdir (disk s) (os_path_join rd u)")
    case False
    then have f: "fst (load_user w self rd u s) = Inr ()" and sm: "samples ?s1 = samples s"
      by (simp_all add: load_user_fst load_user_samples)
    from Cons.prems have "\<forall>u \<in> set us. os_path_isdir (disk ?s1) (os_path_join rd u) \<longrightarrow>
             (\<exists>rec. assemble w self (disk ?s1) rd u = Inr rec)"
      unfolding d by simp
    from Cons.IH[OF this] f sm False show ?thesis
      by (simp add: load_users_Cons d)
  next
    case True
    with Cons.prems obtain rec where rec: "assemble w self (disk s) rd u = Inr rec" by auto
    with True have f: "fst (load_user w self rd u s) = Inr ()"
      and sm: "samples ?s1 = samples s @ [(u, u, rec)]"
      by (simp_all add: load_user_fst load_user_samples)
    from Cons.prems have pre: "\<forall>u \<in> set us. os_path_isdir (disk ?s1) (os_path_join rd u) \<longrightarrow>
             (\<exists>rec. assemble w self (disk ?s1) rd u = Inr rec)"
      unfolding d by simp
    obtain new where new: "samples (snd (load_users w self rd us ?s1)) = samples ?s1 @ new"
      using load_users_new[of w self rd us ?s1] by blast
    from Cons.IH[OF pre] new have "fst (load_users w self rd us ?s1) = Inr ()"
      and "map fst new = filter (\<lambda>u. os_path_isdir (disk s) (os_path_join rd u)) us"
      by (simp_all add: d)
    with f sm True new show ?thesis
      by (simp add: load_users_Cons)
  qed
qed

subsection \<open>Acquisition leaves the samples alone\<close>

lemma and_then_pres:
  assumes "P (snd r)" and "\<And>a s. P s \<Longrightarrow> P (snd (f a s))"
  shows "P (snd (and_then r f))"
proof (cases r)
  case (Pair x s)
  with assms show ?thesis by (cases x) simp_all
qed

lemma os_makedirs_samples: "samples (snd (os_makedirs p s)) = samples s"
  by (simp add: os_makedirs_def Let_def split: sum.splits)

lemma open_wb_samples: "samples (snd (open_wb p s)) = samples s"
  by (simp add: open_wb_def Let_def split: option.splits sum.splits)

lemma write_chunks_samples: "samples (write_chunks p ds s) = samples s"
  by (induction ds arbitrary: s) (simp_all add: file_write_def)

lemma extractall_samples: "samples (snd (extractall w z t s)) = samples s"
  by (simp add: extractall_def Let_def split: option.splits node.splits sum.splits prod.splits)

lemma os_remove_samples: "samples (snd (os_remove p s)) = samples s"
  by (simp add: os_remove_def Let_def split: option.splits)

lemma download_samples: "samples (snd (download w z s)) = samples s"
  unfolding download_def
proof (rule and_then_pres[where P = "\<lambda>s'. samples s' = samples s"])
  show "samples (snd (requests_get w MMASH_URL s)) = samples s"
    by (simp add: requests_get_def)
next
  fix resp and s1 :: state
  assume s1: "samples s1 = samples s"
  show "samples (snd (case declared_total resp of
            Inl e \<Rightarrow> (Inl e, s1)
          | Inr bar_total \<Rightarrow>
              and_then (open_wb z s1) (\<lambda>_ s2.
                let s3 = write_chunks z (chunks resp) (log (ProgressTotal bar_total) s2)
                in case stream_error resp of Some e \<Rightarrow> (Inl e, s3) | None \<Rightarrow> (Inr (), s3)))) = samples s"
  proof (cases "declared_total resp")
    case (Inl e)
    with s1 show ?thesis by simp
  next
    case (Inr n)
    have "samples (snd (and_then (open_wb z s1) (\<lambda>_ s2.
                let s3 = write_chunks z (chunks resp) (log (ProgressTotal n) s2)
                in case stream_error resp of Some e \<Rightarrow> (Inl e, s3) | None \<Rightarrow> (Inr (), s3)))) = samples s"
    proof (rule and_then_pres[where P = "\<lambda>s'. samples s' = samples s"])
      show "samples (snd (open_wb z s1)) = samples s" by (simp add: open_wb_samples s1)
    next
      fix a :: unit and s2 :: state
      assume "samples s2 = samples s"
      then show "samples (snd (let s3 = write_chunks z (chunks resp) (log (ProgressTotal n) s2)
                in case stream_error resp of Some e \<Rightarrow> (Inl e, s3) | None \<Rightarrow> (Inr (), s3))) = samples s"
        by (simp add: Let_def write_chunks_samples split: option.splits)
    qed
    with Inr show ?thesis by simp
  qed
qed

lemma download_and_extract_samples: "samples (snd (download_and_extract w self s)) = samples s"
  unfolding download_and_extract_def Let_def
proof (rule and_then_pres[where P = "\<lambda>s'. samples s' = samples s"])
  show "samples (snd (os_makedirs (dataset_folder self) s)) = samples s"
    by (rule os_makedirs_samples)
next
  fix a :: unit and s1 :: state
  assume s1: "samples s1 = samples s"
  show "samples (snd (and_then (download w (os_path_join (dataset_folder self) ''mmash.zip'') s1)
           (\<lambda>_ s2. and_then (extractall w (os_path_join (dataset_folder self) ''mmash.zip'') (dataset_folder self) s2)
              (\<lambda>_. os_remove (os_path_join (dataset_folder self) ''mmash.zip''))))) = samples s"
  proof (rule and_then_pres[where P = "\<lambda>s'. samples s' = samples s"])
    show "samples (snd (download w (os_path_join (dataset_folder self) ''mmash.zip'') s1)) = samples s"
      by (simp add: download_samples s1)
  next
    fix b :: unit and s2 :: state
    assume s2: "samples s2 = samples s"
    show "samples (snd (and_then (extractall w (os_path_join (dataset_folder self) ''mmash.zip'') (dataset_folder self) s2)
              (\<lambda>_. os_remove (os_path_join (dataset_folder self) ''mmash.zip'')))) = samples s"
    proof (rule and_then_pres[where P = "\<lambda>s'. samples s' = samples s"])
      show "samples (snd (extractall w (os_path_join (dataset_folder self) ''mmash.zip'') (dataset_folder self) s2)) = samples s"
        by (simp add: extractall_samples s2)
    next
      fix c :: unit and s3 :: state
      assume "samples s3 = samples s"
      then show "samples (snd (os_remove (os_path_join (dataset_folder self) ''mmash.zip'') s3)) = samples s"
        by (simp add: os_remove_samples)
    qed
  qed
qed

subsection \<open>Loading and construction\<close>

lemma load_data_listed:
  "os_listdir (disk s) (os_path_join (dataset_folder self) ''MMASH'') = Inr names \<Longrightarrow>
   load_data w self s =
     load_users w self (os_path_join (dataset_folder self) ''MMASH'') (sort names)
       (log (ListDir (os_path_join (dataset_folder self) ''MMASH'')) s)"
  by (simp add: load_data_def Let_def)

lemma load_data_unlisted:
  "os_listdir (disk s) (os_path_join (dataset_folder self) ''MMASH'') = Inl e \<Longrightarrow>
   load_data w self s = (Inl e, log (ListDir (os_path_join (dataset_folder self) ''MMASH'')) s)"
  by (simp add: load_data_def Let_def)

lemma load_data_disk: "disk (snd (load_data w self s)) = disk s"
  by (cases "os_listdir (disk s) (os_path_join (dataset_folder self) ''MMASH'')")
     (simp_all add: load_data_listed load_data_unlisted load_users_disk)

lemma load_data_new:
  "\<exists>new. samples (snd (load_data w self s)) = samples s @ new \<and>
     (\<forall>x \<in> set new. fst (snd x) = fst x \<and>
        os_path_isdir (disk s) (os_path_join (os_path_join (dataset_folder self) ''MMASH'') (fst x)) \<and>
        assemble w self (disk s) (os_path_join (dataset_folder self) ''MMASH'') (fst x) = Inr (snd (snd x)))"
proof (cases "os_listdir (disk s) (os_path_join (dataset_folder self) ''MMASH'')")
  case (Inl e)
  then show ?thesis by (simp add: load_data_unlisted)
next
  case (Inr names)
  let ?rd = "os_path_join (dataset_folder self) ''MMASH''"
  from load_users_new[of w self ?rd "sort names" "log (ListDir ?rd) s"]
  show ?thesis unfolding load_data_listed[OF Inr] by auto
qed

lemma snd_and_then_return: "snd (and_then r (\<lambda>_ s. (Inr c, s))) = snd r"
  by (cases r; cases "fst r") auto

lemma init_valid:
  "validate_tables tables_arg = Inr ts \<Longrightarrow>
   MMASHDataset_init w fs0 root_arg tables_arg dev_arg =
     and_then
       (acquire w (new_self root_arg ts dev_arg)
          (log (PathExists (os_path_join (os_path_join root_arg MMASH_FOLDER) ''MMASH'')) (initial fs0)))
       (\<lambda>_ s2. and_then (load_data w (new_self root_arg ts dev_arg) s2)
                 (\<lambda>_ s3. (Inr (new_self root_arg ts dev_arg), s3)))"
  by (simp add: MMASHDataset_init_def new_self_def acquire_def Let_def)

lemma init_invalid:
  "validate_tables tables_arg = Inl e \<Longrightarrow>
   MMASHDataset_init w fs0 root_arg tables_arg dev_arg = (Inl e, initial fs0)"
  by (simp add: MMASHDataset_init_def)

lemma acquire_samples: "samples (snd (acquire w self s)) = samples s"
  by (simp add: acquire_def download_and_extract_samples)

lemma init_samples:
  assumes "x \<in> set (samples (snd (MMASHDataset_init w fs0 root_arg tables_arg dev_arg)))"
  shows "\<exists>ts. tables_arg = Some ts \<and> set ts \<subseteq> set ALL_TABLES \<and> fst (snd x) = fst x \<and>
     os_path_isdir (disk (snd (MMASHDataset_init w fs0 root_arg tables_arg dev_arg)))
       (os_path_join (os_path_join (os_path_join root_arg MMASH_FOLDER) ''MMASH'') (fst x)) \<and>
     assemble w (new_self root_arg ts dev_arg)
       (disk (snd (MMASHDataset_init w fs0 root_arg tables_arg dev_arg)))
       (os_path_join (os_path_join root_arg MMASH_FOLDER) ''MMASH'') (fst x) = Inr (snd (snd x))"
proof (cases "validate_tables tables_arg")
  case (Inl e)
  with assms show ?thesis by (simp add: init_invalid initial_def)
next
  case (Inr ts)
  let ?self = "new_self root_arg ts dev_arg"
  let ?marker = "os_path_join (os_path_join root_arg MMASH_FOLDER) ''MMASH''"
  let ?s1 = "log (PathExists ?marker) (initial fs0)"
  let ?run = "MMASHDataset_init w fs0 root_arg tables_arg dev_arg"
  have df: "os_path_join (dataset_folder ?self) ''MMASH'' = ?marker"
    by (simp add: new_self_def)
  from Inr have ts: "tables_arg = Some ts" "set ts \<subseteq> set ALL_TABLES"
    using validate_tables_Inr by blast+
  obtain r2 s2 where acq: "acquire w ?self ?s1 = (r2, s2)"
    by (cases "acquire w ?self ?s1")
  have s2: "samples s2 = []"
    using acquire_samples[of w ?self ?s1] acq by (simp add: initial_def)
  show ?thesis
  proof (cases r2)
    case (Inl e)
    with acq have "snd ?run = s2" by (simp add: init_valid[OF Inr])
    with assms s2 show ?thesis by simp
  next
    case (Inr u)
    with acq have fin: "snd ?run = snd (load_data w ?self s2)"
      by (simp add: init_valid[OF \<open>validate_tables tables_arg = Inr ts\<close>] snd_and_then_return)
    have d: "disk (snd ?run) = disk s2" unfolding fin by (rule load_data_disk)
    from load_data_new[of w ?self s2] obtain new where
      new: "samples (snd (load_data w ?self s2)) = samples s2 @ new"
      and good: "\<forall>x \<in> set new. fst (snd x) = fst x \<and>
        os_path_isdir (disk s2) (os_path_join ?marker (fst x)) \<and>
        assemble w ?self (disk s2) ?marker (fst x) = Inr (snd (snd x))"
      unfolding df by (elim exE conjE)
    from assms fin new s2 have "x \<in> set new" by simp
    with good ts d show ?thesis by simp
  qed
qed

subsection \<open>What a successful try body has read\<close>

lemma read_tables_all_read:
  "read_tables w self up uid blocks rec s = (Inr rec', s') \<Longrightarrow>
   (name, fname) \<in> set blocks \<Longrightarrow> name \<in> set (tables self) \<Longrightarrow>
   \<exists>df. read_csv_result (parse_csv w) (disk s) (os_path_join up fname) = Inr df"
proof (induction blocks rec s rule: read_tables_induct[where w = w and self = self and up = up and uid = uid])
  case (Nil rec s)
  then show ?case by simp
next
  case (Skip n f blocks rec s)
  then show ?case by (auto simp: read_tables_skip)
next
  case (Fail n f blocks rec s e)
  then show ?case by (simp add: read_tables_fail)
next
  case (Read n f blocks rec s df)
  then show ?case by (auto simp: read_tables_read)
qed

lemma read_tables_keys:
  "read_tables w self up uid blocks rec s = (Inr rec', s') \<Longrightarrow>
   fst ` set rec' = fst ` set rec \<union> (fst ` set blocks \<inter> set (tables self))"
proof (induction blocks rec s rule: read_tables_induct[where w = w and self = self and up = up and uid = uid])
  case (Nil rec s)
  then show ?case by simp
next
  case (Skip name fname blocks rec s)
  then show ?case by (auto simp: read_tables_skip)
next
  case (Fail name fname blocks rec s e)
  then show ?case by (simp add: read_tables_fail)
next
  case (Read name fname blocks rec s df)
  then show ?case by (auto simp: read_tables_read setitem_keys)
qed

lemma read_tables_distinct:
  "read_tables w self up uid blocks rec s = (Inr rec', s') \<Longrightarrow>
   distinct (map fst rec) \<Longrightarrow> distinct (map fst rec')"
proof (induction blocks rec s rule: read_tables_induct[where w = w and self = self and up = up and uid = uid])
  case (Nil rec s)
  then show ?case by simp
next
  case (Skip name fname blocks rec s)
  then show ?case by (simp add: read_tables_skip)
next
  case (Fail name fname blocks rec s e)
  then show ?case by (simp add: read_tables_fail)
next
  case (Read name fname blocks rec s df)
  then show ?case by (simp add: read_tables_read setitem_distinct)
qed

lemma read_tables_entries:
  "read_tables w self up uid blocks rec s = (Inr rec', s') \<Longrightarrow> (t, df) \<in> set rec' \<Longrightarrow>
   (t, df) \<in> set rec \<or>
   (\<exists>fname df0. (t, fname) \<in> set blocks \<and> t \<in> set (tables self) \<and>
      read_csv_result (parse_csv w) (disk s) (os_path_join up fname) = Inr df0 \<and>
      df = set_scalar_column df0 ''user_id'' (CellStr uid))"
proof (induction blocks rec s rule: read_tables_induct[where w = w and self = self and up = up and uid = uid])
  case (Nil rec s)
  then show ?case by simp
next
  case (Skip name fname blocks rec s)
  then show ?case by (auto simp: read_tables_skip)
next
  case (Fail name fname blocks rec s e)
  then show ?case by (simp add: read_tables_fail)
next
  case (Read name fname blocks rec s df1)
  from Read.prems Read.hyps
  have "(t, df) \<in> set (setitem rec name (set_scalar_column df1 ''user_id'' (CellStr uid))) \<or>
     (\<exists>fname' df0. (t, fname') \<in> set blocks \<and> t \<in> set (tables self) \<and>
        read_csv_result (parse_csv w) (disk s) (os_path_join up fname') = Inr df0 \<and>
        df = set_scalar_column df0 ''user_id'' (CellStr uid))"
    using Read.IH by (simp add: read_tables_read)
  then show ?case
  proof
    assume "(t, df) \<in> set (setitem rec name (set_scalar_column df1 ''user_id'' (CellStr uid)))"
    then have "(t, df) = (name, set_scalar_column df1 ''user_id'' (CellStr uid)) \<or> (t, df) \<in> set rec"
      by (rule setitem_entries)
    then show ?thesis using Read.hyps by auto
  next
    assume "\<exists>fname' df0. (t, fname') \<in> set blocks \<and> t \<in> set (tables self) \<and>
        read_csv_result (parse_csv w) (disk s) (os_path_join up fname') = Inr df0 \<and>
        df = set_scalar_column df0 ''user_id'' (CellStr uid)"
    then show ?thesis by auto
  qed
qed

lemma table_files_names: "fst ` set TABLE_FILES = set ALL_TABLES"
  by (simp add: TABLE_FILES_def ALL_TABLES_def)

lemma assemble_run:
  "assemble w self files rd u = Inr rec \<Longrightarrow>
   \<exists>s'. read_tables w self (os_path_join rd u) u TABLE_FILES [] (initial files) = (Inr rec, s')"
  unfolding assemble_def
  by (cases "read_tables w self (os_path_join rd u) u TABLE_FILES [] (initial files)") simp

lemma present_tables_iff:
  "name \<in> set (present_tables files up) \<longleftrightarrow>
     (\<exists>fname. (name, fname) \<in> set TABLE_FILES \<and> os_path_exists files (os_path_join up fname))"
  by (force simp: present_tables_def)

lemma assemble_keys:
  assumes "assemble w self files rd u = Inr rec"
  shows "set (map fst rec) = set (tables self) \<inter> set ALL_TABLES"
    and "set (tables self) \<inter> set ALL_TABLES \<subseteq> set (present_tables files (os_path_join rd u))"
    and "distinct (map fst rec)"
proof -
  from assemble_run[OF assms] obtain s' where
    run: "read_tables w self (os_path_join rd u) u TABLE_FILES [] (initial files) = (Inr rec, s')"
    by blast
  from read_tables_keys[OF run] show "set (map fst rec) = set (tables self) \<inter> set ALL_TABLES"
    by (auto simp: table_files_names)
  from read_tables_distinct[OF run] show "distinct (map fst rec)" by simp
  show "set (tables self) \<inter> set ALL_TABLES \<subseteq> set (present_tables files (os_path_join rd u))"
  proof
    fix name
    assume "name \<in> set (tables self) \<inter> set ALL_TABLES"
    then have req: "name \<in> set (tables self)" and "name \<in> fst ` set TABLE_FILES"
      by (simp_all add: table_files_names)
    then obtain fname where mem: "(name, fname) \<in> set TABLE_FILES" by auto
    from read_tables_all_read[OF run mem req] obtain df where
      "read_csv_result (parse_csv w) files (os_path_join (os_path_join rd u) fname) = Inr df"
      by (auto simp: initial_def)
    then have "os_path_exists files (os_path_join (os_path_join rd u) fname)"
      using read_csv_missing[of "parse_csv w" files "os_path_join (os_path_join rd u) fname"] by simp
    with mem show "name \<in> set (present_tables files (os_path_join rd u))"
      unfolding present_tables_iff by blast
  qed
qed

lemma present_tables_subset: "set (present_tables files up) \<subseteq> set ALL_TABLES"
  using table_files_names by (auto simp: present_tables_def)

text \<open>
  C2. Every record that a run of the constructor hands to \<open>add_sample\<close> has as its keys
  exactly the requested names whose source file exists in that subject's directory. The
  subject was not skipped, so this is the whole requested list; no key occurs twice.
\<close>

theorem added_record_keys:
  assumes "(p, v, rec) \<in> set (samples (snd (MMASHDataset_init w fs0 root_arg (Some ts) dev_arg)))"
  shows "set (map fst rec) =
           set ts \<inter> set (present_tables (disk (snd (MMASHDataset_init w fs0 root_arg (Some ts) dev_arg)))
             (os_path_join (os_path_join (os_path_join root_arg MMASH_FOLDER) ''MMASH'') p))
       \<and> set (map fst rec) = set ts \<and> distinct (map fst rec)"
proof -
  let ?fin = "snd (MMASHDataset_init w fs0 root_arg (Some ts) dev_arg)"
  let ?rd = "os_path_join (os_path_join root_arg MMASH_FOLDER) ''MMASH''"
  from init_samples[OF assms] have valid: "set ts \<subseteq> set ALL_TABLES"
    and asm: "assemble w (new_self root_arg ts dev_arg) (disk ?fin) ?rd p = Inr rec"
    by auto
  have t: "tables (new_self root_arg ts dev_arg) = ts" by (simp add: new_self_def)
  note k = assemble_keys[OF asm, unfolded t]
  from k(1) valid have keys: "set (map fst rec) = set ts" by auto
  moreover from k(2) valid have "set ts \<subseteq> set (present_tables (disk ?fin) (os_path_join ?rd p))"
    by auto
  ultimately show ?thesis using k(3) by auto
qed

theorem added_record_keys_witness:
  "(''user_1'', ''user_1'', [(''sleep'', demo_sleep_1), (''rr'', demo_rr_1)])
     \<in> set (samples (snd (MMASHDataset_init demo_world demo_files ''data'' (Some [''rr'', ''sleep'']) False)))
   \<and> set (map fst [(''sleep'', demo_sleep_1), (''rr'', demo_rr_1)]) = set [''rr'', ''sleep'']"
proof -
  have h: "(''user_1'', ''user_1'', [(''sleep'', demo_sleep_1), (''rr'', demo_rr_1)])
     \<in> set (samples (snd (MMASHDataset_init demo_world demo_files ''data'' (Some [''rr'', ''sleep'']) False)))"
    by code_simp
  from added_record_keys[OF h] h show ?thesis by blast
qed

text \<open>
  C8. Every table in every record that a run of the constructor adds is the table read
  from the subject's file for that name with the \<open>user_id\<close> column set: the column
  exists and each of its rows holds the subject's name, whatever the file had in a column
  of that name.
\<close>

theorem added_table_user_id_column:
  assumes "(p, v, rec) \<in> set (samples (snd (MMASHDataset_init w fs0 root_arg tables_arg dev_arg)))"
    and "(t, df) \<in> set rec"
  shows "column df ''user_id'' = Some (replicate (n_rows df) (CellStr p))
       \<and> (\<exists>fname df0. (t, fname) \<in> set TABLE_FILES \<and>
             read_csv_result (parse_csv w) (disk (snd (MMASHDataset_init w fs0 root_arg tables_arg dev_arg)))
               (os_path_join (os_path_join (os_path_join (os_path_join root_arg MMASH_FOLDER) ''MMASH'') p) fname)
               = Inr df0 \<and>
             df = set_scalar_column df0 ''user_id'' (CellStr p))"
proof -
  let ?fin = "snd (MMASHDataset_init w fs0 root_arg tables_arg dev_arg)"
  let ?rd = "os_path_join (os_path_join root_arg MMASH_FOLDER) ''MMASH''"
  from init_samples[OF assms(1)] obtain ts where
    asm: "assemble w (new_self root_arg ts dev_arg) (disk ?fin) ?rd p = Inr rec"
    by auto
  from assemble_run[OF asm] obtain s' where
    run: "read_tables w (new_self root_arg ts dev_arg) (os_path_join ?rd p) p TABLE_FILES []
            (initial (disk ?fin)) = (Inr rec, s')"
    by blast
  from read_tables_entries[OF run assms(2)] obtain fname df0 where
    src: "(t, fname) \<in> set TABLE_FILES"
      "read_csv_result (parse_csv w) (disk ?fin) (os_path_join (os_path_join ?rd p) fname) = Inr df0"
      "df = set_scalar_column df0 ''user_id'' (CellStr p)"
    by (auto simp: initial_def)
  have "column df ''user_id'' = Some (replicate (n_rows df) (CellStr p))"
    unfolding src(3) by (simp add: column_set_scalar_column n_rows_set_scalar_column)
  with src show ?thesis by blast
qed

theorem added_table_user_id_column_witness:
  "(''user_1'', ''user_1'', [(''sleep'', demo_sleep_1), (''rr'', demo_rr_1)])
     \<in> set (samples (snd (MMASHDataset_init demo_world demo_files ''data'' (Some [''rr'', ''sleep'']) False)))
   \<and> (''rr'', demo_rr_1) \<in> set [(''sleep'', demo_sleep_1), (''rr'', demo_rr_1)]
   \<and> column demo_rr_1 ''user_id'' = Some (replicate (n_rows demo_rr_1) (CellStr ''user_1''))
   \<and> read_csv_result (parse_csv demo_world) demo_files ''data/MMASH/MMASH/user_1/RR.csv'' =
        Inr \<lparr>n_rows = 1, columns = [(''user_id'', [CellInt 7]), (''value'', [CellStr ''r1''])]\<rparr>"
proof -
  have h: "(''user_1'', ''user_1'', [(''sleep'', demo_sleep_1), (''rr'', demo_rr_1)])
     \<in> set (samples (snd (MMASHDataset_init demo_world demo_files ''data'' (Some [''rr'', ''sleep'']) False)))"
    by code_simp
  have m: "(''rr'', demo_rr_1) \<in> set [(''sleep'', demo_sleep_1), (''rr'', demo_rr_1)]"
    by simp
  have r: "read_csv_result (parse_csv demo_world) demo_files ''data/MMASH/MMASH/user_1/RR.csv'' =
        Inr \<lparr>n_rows = 1, columns = [(''user_id'', [CellInt 7]), (''value'', [CellStr ''r1''])]\<rparr>"
    by code_simp
  from added_table_user_id_column[OF h m] h m r show ?thesis by blast
qed

subsection \<open>No requested tables\<close>

lemma read_tables_none:
  "tables self = [] \<Longrightarrow> read_tables w self up uid blocks rec s = (Inr rec, s)"
proof (induction blocks)
  case Nil
  show ?case by simp
next
  case (Cons b blocks)
  obtain n f where b: "b = (n, f)" by (cases b)
  from Cons show ?case unfolding b by (simp add: read_tables_skip)
qed

lemma load_user_none:
  "tables self = [] \<Longrightarrow>
   load_user w self rd u s =
     (Inr (),
      if os_path_isdir (disk s) (os_path_join rd u)
      then add_sample u u [] (log (IsDir (os_path_join rd u)) s)
      else log (IsDir (os_path_join rd u)) s)"
  by (simp add: load_user_def Let_def read_tables_none)

lemma load_users_none:
  "tables self = [] \<Longrightarrow>
   load_users w self rd us s =
     (Inr (),
      s\<lparr>io := io s @ map (\<lambda>u. IsDir (os_path_join rd u)) us,
        samples := samples s @
          map (\<lambda>u. (u, u, [])) (filter (\<lambda>u. os_path_isdir (disk s) (os_path_join rd u)) us)\<rparr>)"
proof (induction us arbitrary: s)
  case Nil
  show ?case by simp
next
  case (Cons u us)
  show ?case
  proof (cases "os_path_isdir (disk s) (os_path_join rd u)")
    case True
    with Cons show ?thesis
      by (simp add: load_users_Cons load_user_none add_sample_def log_def)
  next
    case False
    with Cons show ?thesis
      by (simp add: load_users_Cons load_user_none add_sample_def log_def)
  qed
qed

text \<open>
  C9. An empty table list passes validation. Loading with it reads no table file: the
  only calls are the listing and one directory test per name, and every name that is a
  directory gets an empty record, with the name as patient and as visit. When the marker
  directory can be listed, this is the whole run of the constructor.
\<close>

theorem empty_table_list_adds_empty_records:
  "validate_tables (Some []) = Inr []
   \<and> (tables self = [] \<and> os_listdir (disk s) (os_path_join (dataset_folder self) ''MMASH'') = Inr names \<longrightarrow>
        load_data w self s =
          (Inr (),
           s\<lparr>io := io s @ ListDir (os_path_join (dataset_folder self) ''MMASH'')
                   # map (\<lambda>u. IsDir (os_path_join (os_path_join (dataset_folder self) ''MMASH'') u)) (sort names),
             samples := samples s @
               map (\<lambda>u. (u, u, []))
                 (filter (\<lambda>u. os_path_isdir (disk s) (os_path_join (os_path_join (dataset_folder self) ''MMASH'') u))
                    (sort names))\<rparr>))
   \<and> (os_listdir fs0 (os_path_join (os_path_join root_arg MMASH_FOLDER) ''MMASH'') = Inr names \<longrightarrow>
        MMASHDataset_init w fs0 root_arg (Some []) dev_arg =
          (Inr (new_self root_arg [] dev_arg),
           \<lparr>disk = fs0,
            io = PathExists (os_path_join (os_path_join root_arg MMASH_FOLDER) ''MMASH'')
                 # ListDir (os_path_join (os_path_join root_arg MMASH_FOLDER) ''MMASH'')
                 # map (\<lambda>u. IsDir (os_path_join (os_path_join (os_path_join root_arg MMASH_FOLDER) ''MMASH'') u)) (sort names),
            samples = map (\<lambda>u. (u, u, []))
                 (filter (\<lambda>u. os_path_isdir fs0 (os_path_join (os_path_join (os_path_join root_arg MMASH_FOLDER) ''MMASH'') u))
                    (sort names))\<rparr>))"
proof (intro conjI impI)
  show "validate_tables (Some []) = Inr []" by (simp add: validate_tables_def)
next
  assume a: "tables self = [] \<and> os_listdir (disk s) (os_path_join (dataset_folder self) ''MMASH'') = Inr names"
  then show "load_data w self s =
          (Inr (),
           s\<lparr>io := io s @ ListDir (os_path_join (dataset_folder self) ''MMASH'')
                   # map (\<lambda>u. IsDir (os_path_join (os_path_join (dataset_folder self) ''MMASH'') u)) (sort names),
             samples := samples s @
               map (\<lambda>u. (u, u, []))
                 (filter (\<lambda>u. os_path_isdir (disk s) (os_path_join (os_path_join (dataset_folder self) ''MMASH'') u))
                    (sort names))\<rparr>)"
    by (simp add: load_data_listed load_users_none log_def)
next
  let ?marker = "os_path_join (os_path_join root_arg MMASH_FOLDER) ''MMASH''"
  let ?self = "new_self root_arg [] dev_arg"
  assume l: "os_listdir fs0 ?marker = Inr names"
  then have ex: "os_path_exists fs0 ?marker"
    by (auto simp: os_listdir_def os_path_exists_def split: option.splits node.splits)
  have v: "validate_tables (Some []) = Inr []" by (simp add: validate_tables_def)
  have t: "tables ?self = []" and df: "os_path_join (dataset_folder ?self) ''MMASH'' = ?marker"
    by (simp_all add: new_self_def)
  have acq: "acquire w ?self (log (PathExists ?marker) (initial fs0)) = (Inr (), log (PathExists ?marker) (initial fs0))"
    using ex by (simp add: acquire_def df initial_def)
  have l': "os_listdir (disk (log (PathExists ?marker) (initial fs0))) (os_path_join (dataset_folder ?self) ''MMASH'') = Inr names"
    using l by (simp add: df initial_def)
  show "MMASHDataset_init w fs0 root_arg (Some []) dev_arg =
          (Inr ?self,
           \<lparr>disk = fs0,
            io = PathExists ?marker # ListDir ?marker # map (\<lambda>u. IsDir (os_path_join ?marker u)) (sort names),
            samples = map (\<lambda>u. (u, u, []))
                 (filter (\<lambda>u. os_path_isdir fs0 (os_path_join ?marker u)) (sort names))\<rparr>)"
  proof -
    let ?s1 = "log (PathExists ?marker) (initial fs0)"
    have "load_data w ?self ?s1 =
        load_users w ?self ?marker (sort names) (log (ListDir ?marker) ?s1)"
      using load_data_listed[OF l'] by (simp only: df)
    also have "\<dots> = (Inr (),
        (log (ListDir ?marker) ?s1)\<lparr>io := io (log (ListDir ?marker) ?s1) @ map (\<lambda>u. IsDir (os_path_join ?marker u)) (sort names),
          samples := samples (log (ListDir ?marker) ?s1) @
            map (\<lambda>u. (u, u, [])) (filter (\<lambda>u. os_path_isdir (disk (log (ListDir ?marker) ?s1)) (os_path_join ?marker u)) (sort names))\<rparr>)"
      by (rule load_users_none[OF t])
    finally have ld: "load_data w ?self ?s1 = (Inr (),
        \<lparr>disk = fs0,
         io = PathExists ?marker # ListDir ?marker # map (\<lambda>u. IsDir (os_path_join ?marker u)) (sort names),
         samples = map (\<lambda>u. (u, u, [])) (filter (\<lambda>u. os_path_isdir fs0 (os_path_join ?marker u)) (sort names))\<rparr>)"
      by (simp add: log_def initial_def)
    show ?thesis
      unfolding init_valid[OF v] acq and_then_simps ld ..
  qed
qed

theorem empty_table_list_adds_empty_records_witness:
  "tables (demo_self []) = []
   \<and> os_listdir (disk (initial demo_files)) (os_path_join (dataset_folder (demo_self [])) ''MMASH'') = Inr demo_names
   \<and> os_listdir demo_files (os_path_join (os_path_join ''data'' MMASH_FOLDER) ''MMASH'') = Inr demo_names
   \<and> samples (snd (MMASHDataset_init demo_world demo_files ''data'' (Some []) False)) =
       [(''user_1'', ''user_1'', []), (''user_2'', ''user_2'', []),
        (''user_3'', ''user_3'', []), (''user_4'', ''user_4'', [])]
   \<and> fst (load_data demo_world (demo_self []) (initial demo_files)) = Inr ()"
proof -
  have t: "tables (demo_self []) = []" by (simp add: demo_self_def)
  have l1: "os_listdir (disk (initial demo_files)) (os_path_join (dataset_folder (demo_self [])) ''MMASH'') = Inr demo_names"
    by code_simp
  have l2: "os_listdir demo_files (os_path_join (os_path_join ''data'' MMASH_FOLDER) ''MMASH'') = Inr demo_names"
    by code_simp
  have e: "map (\<lambda>u. (u, u, []))
       (filter (\<lambda>u. os_path_isdir demo_files
            (os_path_join (os_path_join (os_path_join ''data'' MMASH_FOLDER) ''MMASH'') u)) (sort demo_names)) =
       [(''user_1'', ''user_1'', []::table_record), (''user_2'', ''user_2'', []),
        (''user_3'', ''user_3'', []), (''user_4'', ''user_4'', [])]"
    by code_simp
  note c9 = empty_table_list_adds_empty_records[of "demo_self []" "initial demo_files" demo_names demo_world demo_files "''data''" False]
  from c9 t l1 have "fst (load_data demo_world (demo_self []) (initial demo_files)) = Inr ()"
    by simp
  moreover from c9 l2 have "samples (snd (MMASHDataset_init demo_world demo_files ''data'' (Some []) False)) =
       [(''user_1'', ''user_1'', []), (''user_2'', ''user_2'', []),
        (''user_3'', ''user_3'', []), (''user_4'', ''user_4'', [])]"
    by (simp add: e)
  ultimately show ?thesis using t l1 l2 by blast
qed

subsection \<open>Discovery\<close>

lemma assemble_returns:
  "read_failures w files self (os_path_join rd u) TABLE_FILES = [] \<Longrightarrow>
   \<exists>rec. assemble w self files rd u = Inr rec"
  unfolding assemble_def by (rule read_tables_returns) (simp add: initial_def)

text \<open>
  C4, as the code has it. The names under the extracted root are sorted and kept when
  \<open>os.path.isdir\<close> holds for them, which follows symbolic links: plain files and links
  that do not lead to a directory are passed over, a link to a directory is a subject
  like any directory. The samples added are for a subsequence of the kept names, in
  their sorted order, and for all of them when every requested file of every kept name
  can be read. With no name kept the load returns without error and adds nothing.
\<close>

theorem discovery_keeps_directories_sorted:
  assumes "os_listdir (disk s) (os_path_join (dataset_folder self) ''MMASH'') = Inr names"
  shows "\<exists>new. samples (snd (load_data w self s)) = samples s @ new
     \<and> subseq (map fst new)
         (filter (\<lambda>u. os_path_isdir (disk s) (os_path_join (os_path_join (dataset_folder self) ''MMASH'') u))
            (sort names))
     \<and> ((\<forall>u \<in> set names.
            os_path_isdir (disk s) (os_path_join (os_path_join (dataset_folder self) ''MMASH'') u) \<longrightarrow>
            read_failures w (disk s) self (os_path_join (os_path_join (dataset_folder self) ''MMASH'') u)
              TABLE_FILES = []) \<longrightarrow>
          fst (load_data w self s) = Inr () \<and>
          map fst new =
            filter (\<lambda>u. os_path_isdir (disk s) (os_path_join (os_path_join (dataset_folder self) ''MMASH'') u))
              (sort names))
     \<and> (filter (\<lambda>u. os_path_isdir (disk s) (os_path_join (os_path_join (dataset_folder self) ''MMASH'') u))
            (sort names) = [] \<longrightarrow>
          fst (load_data w self s) = Inr () \<and> new = [])"
proof -
  let ?rd = "os_path_join (dataset_folder self) ''MMASH''"
  let ?s1 = "log (ListDir ?rd) s"
  let ?isdir = "\<lambda>u. os_path_isdir (disk s) (os_path_join ?rd u)"
  have ld: "load_data w self s = load_users w self ?rd (sort names) ?s1"
    by (rule load_data_listed[OF assms])
  from load_users_new[of w self ?rd "sort names" ?s1] obtain new where
    new1: "samples (snd (load_users w self ?rd (sort names) ?s1)) = samples s @ new"
    and new2: "subseq (map fst new) (filter ?isdir (sort names))"
    by auto
  have complete: "fst (load_data w self s) = Inr () \<and> map fst new = filter ?isdir (sort names)"
    if ok: "\<forall>u \<in> set names. ?isdir u \<longrightarrow> read_failures w (disk s) self (os_path_join ?rd u) TABLE_FILES = []"
  proof -
    have "\<forall>u \<in> set (sort names). os_path_isdir (disk ?s1) (os_path_join ?rd u) \<longrightarrow>
             (\<exists>rec. assemble w self (disk ?s1) ?rd u = Inr rec)"
      using ok assemble_returns[of w "disk s" self ?rd] by simp
    from load_users_complete[OF this] new1 show ?thesis
      unfolding ld by simp
  qed
  have empty: "fst (load_data w self s) = Inr () \<and> new = []"
    if e: "filter ?isdir (sort names) = []"
  proof -
    from e have "\<forall>u \<in> set names. \<not> ?isdir u"
      by (auto simp: filter_empty_conv)
    then have "fst (load_data w self s) = Inr () \<and> map fst new = filter ?isdir (sort names)"
      by (intro complete) simp
    with e show ?thesis by simp
  qed
  have a: "samples (snd (load_data w self s)) = samples s @ new"
    unfolding ld using new1 by simp
  have c: "(\<forall>u \<in> set names. ?isdir u \<longrightarrow>
              read_failures w (disk s) self (os_path_join ?rd u) TABLE_FILES = []) \<longrightarrow>
            fst (load_data w self s) = Inr () \<and> map fst new = filter ?isdir (sort names)"
    using complete by blast
  have d: "filter ?isdir (sort names) = [] \<longrightarrow> fst (load_data w self s) = Inr () \<and> new = []"
    using empty by blast
  show ?thesis
    by (rule exI[of _ new]) (intro conjI a new2 c d)
qed

theorem discovery_keeps_directories_sorted_witness:
  "os_listdir (disk (initial demo_files)) (os_path_join (dataset_folder (demo_self [''sleep''])) ''MMASH'')
     = Inr demo_names
   \<and> map (\<lambda>u. read_failures demo_world (disk (initial demo_files)) (demo_self [''sleep''])
              (os_path_join (os_path_join (dataset_folder (demo_self [''sleep''])) ''MMASH'') u) TABLE_FILES)
         [''user_1'', ''user_2'', ''user_3'', ''user_4''] = [[], [], [], []]
   \<and> fst (load_data demo_world (demo_self [''sleep'']) (initial demo_files)) = Inr ()
   \<and> map fst (samples (snd (load_data demo_world (demo_self [''sleep'']) (initial demo_files)))) =
        [''user_1'', ''user_2'', ''user_3'', ''user_4'']
   \<and> os_listdir (disk (initial bare_files)) (os_path_join (dataset_folder (demo_self [''sleep''])) ''MMASH'')
     = Inr [''README.md'']
   \<and> fst (load_data demo_world (demo_self [''sleep'']) (initial bare_files)) = Inr ()
   \<and> samples (snd (load_data demo_world (demo_self [''sleep'']) (initial bare_files))) = []"
proof -
  let ?rd = "os_path_join (dataset_folder (demo_self [''sleep''])) ''MMASH''"
  have h: "os_listdir (disk (initial demo_files)) ?rd = Inr demo_names"
    by code_simp
  have ok: "\<forall>u \<in> set demo_names.
         os_path_isdir (disk (initial demo_files)) (os_path_join ?rd u) \<longrightarrow>
         read_failures demo_world (disk (initial demo_files)) (demo_self [''sleep''])
           (os_path_join ?rd u) TABLE_FILES = []"
    by code_simp
  have f: "filter (\<lambda>u. os_path_isdir (disk (initial demo_files)) (os_path_join ?rd u)) (sort demo_names) =
        [''user_1'', ''user_2'', ''user_3'', ''user_4'']"
    by code_simp
  have s0: "samples (initial demo_files) = []" "samples (initial bare_files) = []"
    by (simp_all add: initial_def)
  from discovery_keeps_directories_sorted[OF h, of demo_world] ok
  have full: "fst (load_data demo_world (demo_self [''sleep'']) (initial demo_files)) = Inr ()
      \<and> map fst (samples (snd (load_data demo_world (demo_self [''sleep'']) (initial demo_files)))) =
        [''user_1'', ''user_2'', ''user_3'', ''user_4'']"
    unfolding f s0 by auto
  have hb: "os_listdir (disk (initial bare_files)) ?rd = Inr [''README.md'']"
    by code_simp
  have fb: "filter (\<lambda>u. os_path_isdir (disk (initial bare_files)) (os_path_join ?rd u)) (sort [''README.md'']) = []"
    by code_simp
  from discovery_keeps_directories_sorted[OF hb, of demo_world]
  have bare: "fst (load_data demo_world (demo_self [''sleep'']) (initial bare_files)) = Inr ()
      \<and> samples (snd (load_data demo_world (demo_self [''sleep'']) (initial bare_files))) = []"
    unfolding fb s0 by auto
  have rf: "map (\<lambda>u. read_failures demo_world (disk (initial demo_files)) (demo_self [''sleep''])
              (os_path_join ?rd u) TABLE_FILES)
         [''user_1'', ''user_2'', ''user_3'', ''user_4''] = [[], [], [], []]"
    by code_simp
  from h rf full hb bare show ?thesis by blast
qed

text \<open>
  On the small world, \<open>user_3\<close> is a symbolic link to a directory, and a sample is added
  for it.
\<close>

theorem symlinked_directory_is_a_subject:
  "os_path_islink demo_files (os_path_join ''data/MMASH/MMASH'' ''user_3'')
   \<and> (''user_3'', ''user_3'',
        [(''sleep'',
          \<lparr>n_rows = 1, columns = [(''user_id'', [CellStr ''user_3'']), (''value'', [CellStr ''s3''])]\<rparr>)])
       \<in> set (samples (snd (load_data demo_world (demo_self [''sleep'']) (initial demo_files))))"
  by code_simp

subsection \<open>The order and repetition of the requested names\<close>

lemma read_tables_cong:
  "set (tables a) = set (tables b) \<Longrightarrow>
   read_tables w a up uid blocks rec s = read_tables w b up uid blocks rec s"
proof (induction blocks rec s rule: read_tables_induct[where w = w and self = a and up = up and uid = uid])
  case (Nil rec s)
  then show ?case by simp
next
  case (Skip name fname blocks rec s)
  then show ?case by (simp add: read_tables_skip)
next
  case (Fail name fname blocks rec s e)
  then show ?case by (simp add: read_tables_fail)
next
  case (Read name fname blocks rec s df)
  then show ?case by (simp add: read_tables_read)
qed

lemma load_user_cong:
  assumes "set (tables a) = set (tables b)"
  shows "load_user w a rd u s = load_user w b rd u s"
  unfolding load_user_def read_tables_cong[OF assms] ..

lemma load_users_cong:
  assumes "set (tables a) = set (tables b)"
  shows "load_users w a rd us s = load_users w b rd us s"
proof (induction us arbitrary: s)
  case Nil
  show ?case by simp
next
  case (Cons u us)
  show ?case unfolding load_users_Cons load_user_cong[OF assms] Cons.IH ..
qed

lemma load_data_cong:
  assumes "set (tables a) = set (tables b)" and "dataset_folder a = dataset_folder b"
  shows "load_data w a s = load_data w b s"
  unfolding load_data_def load_users_cong[OF assms(1)] assms(2) ..

lemma acquire_cong:
  "dataset_folder a = dataset_folder b \<Longrightarrow> acquire w a s = acquire w b s"
  by (simp add: acquire_def download_and_extract_def)

lemma requested_files_cong:
  "set (tables a) = set (tables b) \<Longrightarrow> requested_files a up blocks = requested_files b up blocks"
  by (simp add: requested_files_def)

lemma read_tables_io:
  "\<exists>k \<le> length (requested_files self up blocks).
     io (snd (read_tables w self up uid blocks rec s)) =
       io s @ map ReadCsv (take k (requested_files self up blocks)) \<and>
     ((\<exists>rec'. fst (read_tables w self up uid blocks rec s) = Inr rec') \<longrightarrow>
        k = length (requested_files self up blocks))"
proof (induction blocks rec s rule: read_tables_induct[where w = w and self = self and up = up and uid = uid])
  case (Nil rec s)
  then show ?case by (simp add: requested_files_def)
next
  case (Skip name fname blocks rec s)
  then show ?case by (simp add: read_tables_skip requested_files_def)
next
  case (Fail name fname blocks rec s e)
  have "io (snd (read_tables w self up uid ((name, fname) # blocks) rec s)) =
          io s @ map ReadCsv (take 1 (requested_files self up ((name, fname) # blocks)))"
    using Fail by (simp add: read_tables_fail requested_files_def)
  moreover have "1 \<le> length (requested_files self up ((name, fname) # blocks))"
    using Fail by (simp add: requested_files_def)
  moreover have "\<not> (\<exists>rec'. fst (read_tables w self up uid ((name, fname) # blocks) rec s) = Inr rec')"
    using Fail by (simp add: read_tables_fail)
  ultimately show ?case by blast
next
  case (Read name fname blocks rec s df)
  let ?rec1 = "setitem rec name (set_scalar_column df ''user_id'' (CellStr uid))"
  let ?s1 = "log (ReadCsv (os_path_join up fname)) s"
  from Read.IH obtain k where k: "k \<le> length (requested_files self up blocks)"
    "io (snd (read_tables w self up uid blocks ?rec1 ?s1)) = io ?s1 @ map ReadCsv (take k (requested_files self up blocks))"
    "(\<exists>rec'. fst (read_tables w self up uid blocks ?rec1 ?s1) = Inr rec') \<longrightarrow> k = length (requested_files self up blocks)"
    by blast
  have req: "requested_files self up ((name, fname) # blocks) = os_path_join up fname # requested_files self up blocks"
    using Read.hyps by (simp add: requested_files_def)
  have eq: "read_tables w self up uid ((name, fname) # blocks) rec s = read_tables w self up uid blocks ?rec1 ?s1"
    using Read.hyps by (simp add: read_tables_read)
  have "Suc k \<le> length (requested_files self up ((name, fname) # blocks))"
    using k(1) req by simp
  moreover have "io (snd (read_tables w self up uid ((name, fname) # blocks) rec s)) =
      io s @ map ReadCsv (take (Suc k) (requested_files self up ((name, fname) # blocks)))"
    using k(2) req eq by simp
  moreover have "(\<exists>rec'. fst (read_tables w self up uid ((name, fname) # blocks) rec s) = Inr rec') \<longrightarrow>
      Suc k = length (requested_files self up ((name, fname) # blocks))"
    using k(3) req eq by simp
  ultimately show ?case by blast
qed

text \<open>
  C10. Two table lists with the same set of names give the same load: the same result,
  the same log of calls and the same samples, for the whole run of the constructor as
  well (only the stored list differs). For each subject the same record or exception
  results, and the files read are an initial part of the requested files in the order
  of the blocks: sleep, activity, user_info, questionnaire, rr.
\<close>

theorem record_depends_on_requested_set:
  assumes "set ts1 = set ts2"
  shows "load_data w (self\<lparr>tables := ts1\<rparr>) s = load_data w (self\<lparr>tables := ts2\<rparr>) s
     \<and> assemble w (self\<lparr>tables := ts1\<rparr>) files rd u = assemble w (self\<lparr>tables := ts2\<rparr>) files rd u
     \<and> snd (MMASHDataset_init w fs0 root_arg (Some ts1) dev_arg) =
        snd (MMASHDataset_init w fs0 root_arg (Some ts2) dev_arg)
     \<and> requested_files (self\<lparr>tables := ts1\<rparr>) up TABLE_FILES =
        requested_files (self\<lparr>tables := ts2\<rparr>) up TABLE_FILES
     \<and> (\<exists>k \<le> length (requested_files (self\<lparr>tables := ts1\<rparr>) up TABLE_FILES).
          io (snd (read_tables w (self\<lparr>tables := ts1\<rparr>) up uid TABLE_FILES [] s)) =
            io s @ map ReadCsv (take k (requested_files (self\<lparr>tables := ts1\<rparr>) up TABLE_FILES)))"
proof -
  have t: "set (tables (self\<lparr>tables := ts1\<rparr>)) = set (tables (self\<lparr>tables := ts2\<rparr>))"
    using assms by simp
  have a: "load_data w (self\<lparr>tables := ts1\<rparr>) s = load_data w (self\<lparr>tables := ts2\<rparr>) s"
    by (rule load_data_cong[OF t]) simp
  have b: "assemble w (self\<lparr>tables := ts1\<rparr>) files rd u = assemble w (self\<lparr>tables := ts2\<rparr>) files rd u"
    unfolding assemble_def by (simp add: read_tables_cong[OF t])
  have c: "snd (MMASHDataset_init w fs0 root_arg (Some ts1) dev_arg) =
        snd (MMASHDataset_init w fs0 root_arg (Some ts2) dev_arg)"
  proof (cases "set ts1 \<subseteq> set ALL_TABLES")
    case False
    then have "\<not> set ts2 \<subseteq> set ALL_TABLES" using assms by simp
    then obtain e2 where "validate_tables (Some ts2) = Inl e2"
      using validate_tables_Inr[of "Some ts2"] by (cases "validate_tables (Some ts2)") auto
    moreover from False obtain e1 where "validate_tables (Some ts1) = Inl e1"
      using validate_tables_Inr[of "Some ts1"] by (cases "validate_tables (Some ts1)") auto
    ultimately show ?thesis by (simp add: init_invalid)
  next
    case True
    then have v1: "validate_tables (Some ts1) = Inr ts1" and v2: "validate_tables (Some ts2) = Inr ts2"
      using assms by (simp_all add: validate_tables_ok)
    let ?a = "new_self root_arg ts1 dev_arg" and ?b = "new_self root_arg ts2 dev_arg"
    let ?s1 = "log (PathExists (os_path_join (os_path_join root_arg MMASH_FOLDER) ''MMASH'')) (initial fs0)"
    have tt: "set (tables ?a) = set (tables ?b)" and dd: "dataset_folder ?a = dataset_folder ?b"
      using assms by (simp_all add: new_self_def)
    have acq: "acquire w ?a ?s1 = acquire w ?b ?s1" by (rule acquire_cong[OF dd])
    have ld: "\<And>s2. load_data w ?a s2 = load_data w ?b s2" by (rule load_data_cong[OF tt dd])
    obtain r2 s2 where r: "acquire w ?b ?s1 = (r2, s2)" by (cases "acquire w ?b ?s1")
    show ?thesis
      unfolding init_valid[OF v1] init_valid[OF v2] acq r
      by (cases r2) (simp_all add: snd_and_then_return ld)
  qed
  have d: "requested_files (self\<lparr>tables := ts1\<rparr>) up TABLE_FILES =
        requested_files (self\<lparr>tables := ts2\<rparr>) up TABLE_FILES"
    by (rule requested_files_cong[OF t])
  from read_tables_io[of "self\<lparr>tables := ts1\<rparr>" up TABLE_FILES w uid "[]" s]
  have e: "\<exists>k \<le> length (requested_files (self\<lparr>tables := ts1\<rparr>) up TABLE_FILES).
          io (snd (read_tables w (self\<lparr>tables := ts1\<rparr>) up uid TABLE_FILES [] s)) =
            io s @ map ReadCsv (take k (requested_files (self\<lparr>tables := ts1\<rparr>) up TABLE_FILES))"
    by blast
  from a b c d e show ?thesis by (intro conjI)
qed

theorem record_depends_on_requested_set_witness:
  "set [''rr'', ''sleep'', ''rr''] = set [''sleep'', ''rr'']
   \<and> load_data demo_world (demo_self [''rr'', ''sleep'', ''rr'']) (initial demo_files) =
     load_data demo_world (demo_self [''sleep'', ''rr'']) (initial demo_files)
   \<and> requested_files (demo_self [''rr'', ''sleep'', ''rr'']) ''data/MMASH/MMASH/user_1'' TABLE_FILES =
       [''data/MMASH/MMASH/user_1/sleep.csv'', ''data/MMASH/MMASH/user_1/RR.csv'']"
proof -
  have h: "set [''rr'', ''sleep'', ''rr''] = set [''sleep'', ''rr'']" by auto
  have u1: "(demo_self [])\<lparr>tables := [''rr'', ''sleep'', ''rr'']\<rparr> = demo_self [''rr'', ''sleep'', ''rr'']"
    and u2: "(demo_self [])\<lparr>tables := [''sleep'', ''rr'']\<rparr> = demo_self [''sleep'', ''rr'']"
    by (simp_all add: demo_self_def)
  have r: "requested_files (demo_self [''sleep'', ''rr'']) ''data/MMASH/MMASH/user_1'' TABLE_FILES =
       [''data/MMASH/MMASH/user_1/sleep.csv'', ''data/MMASH/MMASH/user_1/RR.csv'']"
    by code_simp
  from record_depends_on_requested_set[OF h, of demo_world "demo_self []" "initial demo_files" _ _ _ _ _ _ "''data/MMASH/MMASH/user_1''"]
  show ?thesis unfolding u1 u2 using h r by simp
qed

subsection \<open>Acquisition when the marker directory is present\<close>

lemma filter_acq_ReadCsv [simp]: "filter is_acquisition (map ReadCsv ps) = []"
  by (induction ps) simp_all

lemma read_tables_acq:
  "filter is_acquisition (io (snd (read_tables w self up uid blocks rec s))) = filter is_acquisition (io s)"
proof -
  from read_tables_io[of self up blocks w uid rec s] obtain k where
    "io (snd (read_tables w self up uid blocks rec s)) = io s @ map ReadCsv (take k (requested_files self up blocks))"
    by blast
  then show ?thesis by simp
qed

lemma load_user_acq:
  "filter is_acquisition (io (snd (load_user w self rd u s))) = filter is_acquisition (io s)"
proof (cases "os_path_isdir (disk s) (os_path_join rd u)")
  case False
  then show ?thesis by (simp add: load_user_not_dir)
next
  case True
  let ?s0 = "log (IsDir (os_path_join rd u)) s"
  obtain r s2 where run: "read_tables w self (os_path_join rd u) u TABLE_FILES [] ?s0 = (r, s2)"
    by (cases "read_tables w self (os_path_join rd u) u TABLE_FILES [] ?s0")
  have a: "filter is_acquisition (io s2) = filter is_acquisition (io s)"
    using read_tables_acq[of w self "os_path_join rd u" u TABLE_FILES "[]" ?s0] run by simp
  show ?thesis
  proof (cases r)
    case (Inl e)
    with True run a show ?thesis by (simp add: load_user_raises)
  next
    case (Inr rec)
    with True run a show ?thesis by (simp add: load_user_adds)
  qed
qed

lemma load_users_acq:
  "filter is_acquisition (io (snd (load_users w self rd us s))) = filter is_acquisition (io s)"
proof (induction us arbitrary: s)
  case Nil
  show ?case by simp
next
  case (Cons u us)
  show ?case
    by (cases "fst (load_user w self rd u s)") (simp_all add: load_users_Cons load_user_acq Cons.IH)
qed

lemma load_data_acq:
  "filter is_acquisition (io (snd (load_data w self s))) = filter is_acquisition (io s)"
  by (cases "os_listdir (disk s) (os_path_join (dataset_folder self) ''MMASH'')")
     (simp_all add: load_data_listed load_data_unlisted load_users_acq)

text \<open>
  C6. With valid table names and the marker directory present, the constructor goes from
  the existence test straight to loading: its log holds no request, no progress-bar call,
  no write, no extraction and no removal, and the file system at the end is the one it
  started on.
\<close>

theorem present_marker_skips_acquisition:
  assumes "set ts \<subseteq> set ALL_TABLES"
    and "os_path_exists fs0 (os_path_join (os_path_join root_arg MMASH_FOLDER) ''MMASH'')"
  shows "MMASHDataset_init w fs0 root_arg (Some ts) dev_arg =
           and_then
             (load_data w (new_self root_arg ts dev_arg)
                (log (PathExists (os_path_join (os_path_join root_arg MMASH_FOLDER) ''MMASH'')) (initial fs0)))
             (\<lambda>_ s3. (Inr (new_self root_arg ts dev_arg), s3))
       \<and> filter is_acquisition (io (snd (MMASHDataset_init w fs0 root_arg (Some ts) dev_arg))) = []
       \<and> disk (snd (MMASHDataset_init w fs0 root_arg (Some ts) dev_arg)) = fs0"
proof -
  let ?marker = "os_path_join (os_path_join root_arg MMASH_FOLDER) ''MMASH''"
  let ?self = "new_self root_arg ts dev_arg"
  let ?s1 = "log (PathExists ?marker) (initial fs0)"
  have v: "validate_tables (Some ts) = Inr ts" using assms(1) by (rule validate_tables_ok)
  have df: "os_path_join (dataset_folder ?self) ''MMASH'' = ?marker" by (simp add: new_self_def)
  have acq: "acquire w ?self ?s1 = (Inr (), ?s1)"
    using assms(2) by (simp add: acquire_def df initial_def)
  have run: "MMASHDataset_init w fs0 root_arg (Some ts) dev_arg =
      and_then (load_data w ?self ?s1) (\<lambda>_ s3. (Inr ?self, s3))"
    unfolding init_valid[OF v] acq by simp
  have fin: "snd (MMASHDataset_init w fs0 root_arg (Some ts) dev_arg) = snd (load_data w ?self ?s1)"
    unfolding run by (rule snd_and_then_return)
  have "filter is_acquisition (io (snd (load_data w ?self ?s1))) = []"
    by (simp add: load_data_acq initial_def)
  moreover have "disk (snd (load_data w ?self ?s1)) = fs0"
    by (simp add: load_data_disk initial_def)
  ultimately show ?thesis using run fin by simp
qed

theorem present_marker_skips_acquisition_witness:
  "set [''sleep'', ''rr''] \<subseteq> set ALL_TABLES
   \<and> os_path_exists demo_files (os_path_join (os_path_join ''data'' MMASH_FOLDER) ''MMASH'')
   \<and> filter is_acquisition (io (snd (MMASHDataset_init demo_world demo_files ''data'' (Some [''sleep'', ''rr'']) False))) = []
   \<and> disk (snd (MMASHDataset_init demo_world demo_files ''data'' (Some [''sleep'', ''rr'']) False)) = demo_files"
proof -
  have h1: "set [''sleep'', ''rr''] \<subseteq> set ALL_TABLES" by (simp add: ALL_TABLES_def)
  have h2: "os_path_exists demo_files (os_path_join (os_path_join ''data'' MMASH_FOLDER) ''MMASH'')"
    by code_simp
  from present_marker_skips_acquisition[OF h1 h2, of demo_world False] h1 h2 show ?thesis by blast
qed

subsection \<open>The declared content length\<close>














text \<open>The separators 28 to 31 are not whitespace for \<open>int\<close>: such a header is rejected.\<close>

lemma py_int_separator_rejected: "py_int [CHR 0x1F, CHR ''5''] = Inl (IntValueError [CHR 0x1F, CHR ''5''])"
  by (simp add: py_int_def py_strip_def py_isspace_def decimal_def is_digit_def)




subsection \<open>A whole run from an empty file system\<close>

text \<open>
  Construction on an empty file system: the directories are made, the archive is fetched
  and written, its member is extracted together with the directories above it, the
  temporary file is removed, and the one subject is loaded.
\<close>

lemma fresh_download_then_load:
  "MMASHDataset_init archive_world [] ''data'' (Some [''sleep'']) False =
     (Inr \<lparr>root = ''data'', tables = [''sleep''], dev = False, dataset_folder = ''data/MMASH''\<rparr>,
      \<lparr>disk =
         [(''data'', Directory),
          (''data/MMASH'', Directory),
          (''data/MMASH/MMASH'', Directory),
          (''data/MMASH/MMASH/user_1'', Directory),
          (''data/MMASH/MMASH/user_1/sleep.csv'', RegularFile True ''s1'')],
       io =
         [PathExists ''data/MMASH/MMASH'',
          MakeDirs ''data/MMASH'',
          HttpGet MMASH_URL,
          OpenWrite ''data/MMASH/mmash.zip'',
          ProgressTotal 0,
          FileWrite ''data/MMASH/mmash.zip'' ''PK'',
          ProgressUpdate 2,
          FileWrite ''data/MMASH/mmash.zip'' ''zip'',
          ProgressUpdate 3,
          ExtractAll ''data/MMASH/mmash.zip'' ''data/MMASH'',
          Remove ''data/MMASH/mmash.zip'',
          ListDir ''data/MMASH/MMASH'',
          IsDir ''data/MMASH/MMASH/user_1'',
          ReadCsv ''data/MMASH/MMASH/user_1/sleep.csv''],
       samples = [(''user_1'', ''user_1'', [(''sleep'', demo_sleep_1)])]\<rparr>)"
  by code_simp

end
